theory Spec2Isabelle
  imports Complex_Main
begin

section \<open>Exceptions\<close>

text \<open>
  The Python exceptions the modelled code can raise. A function that can raise returns
  \<open>error + 'a\<close>, with \<open>Inl\<close> for the exception that leaves it.
  \<open>Fault\<close> is \<open>xmlrpc.client.Fault\<close>, the only exception the code catches;
  \<open>UpstreamFailure\<close> stands for every other failure of a call to the controller.
\<close>

datatype error =
    AssertionError
  | AttributeError
  | IndexError
  | KeyError
  | TypeError
  | ValueError
  | ZeroDivisionError
  | Fault
  | UpstreamFailure

text \<open>
  A \<open>for\<close> loop whose body updates a state and may raise: the first exception ends
  the loop and leaves it.
\<close>

fun for_each :: "('a \<Rightarrow> 's \<Rightarrow> error + 's) \<Rightarrow> 'a list \<Rightarrow> 's \<Rightarrow> error + 's" where
  "for_each body [] s = Inr s"
| "for_each body (x # xs) s =
     (case body x s of Inl e \<Rightarrow> Inl e | Inr s' \<Rightarrow> for_each body xs s')"

section \<open>cache.py\<close>

text \<open>
  \<open>functools.lru_cache(maxsize)\<close> of the standard library, for \<open>maxsize\<close> a
  number: the entries are kept most recently used first; a hit returns the stored value
  and moves its entry to the front; a miss invokes the function, stores the result at the
  front and drops the least recently used entries beyond \<open>maxsize\<close> (with
  \<open>maxsize = 0\<close> nothing is ever stored); an exception of the function stores
  nothing and propagates. \<open>calls\<close> counts the invocations of the wrapped function: it
  is the instrument the statements about "invoking \<open>compute_fn\<close>" read.
\<close>

record ('k, 'v) cache =
  entries :: "('k \<times> 'v) list"
  calls :: nat

definition lru_cache ::
  "nat \<Rightarrow> ('k \<Rightarrow> error + 'v) \<Rightarrow> 'k \<Rightarrow> ('k, 'v) cache \<Rightarrow> (error + 'v) \<times> ('k, 'v) cache" where
  "lru_cache maxsize func key c =
     (case map_of (entries c) key of
        Some v \<Rightarrow> (Inr v, c\<lparr>entries := (key, v) # filter (\<lambda>e. fst e \<noteq> key) (entries c)\<rparr>)
      | None \<Rightarrow>
          (case func key of
             Inl e \<Rightarrow> (Inl e, c\<lparr>calls := Suc (calls c)\<rparr>)
           | Inr v \<Rightarrow>
               (Inr v, c\<lparr>entries := take maxsize ((key, v) # entries c),
                          calls := Suc (calls c)\<rparr>)))"

text \<open>
  \<open>ttl_lru_cache(seconds_to_live, maxsize)\<close>, the decorator of every cached method of
  the collectors. The wrapped function is impure (it asks the controller), so its model
  takes the clock reading of its invocation beside its arguments; \<open>now\<close> is what
  \<open>time()\<close> returns at the call. The cache key is \<open>time() // seconds_to_live\<close>
  followed by the arguments; the first component is not passed on to the function.
\<close>

definition ttl_lru_cache ::
  "int \<Rightarrow> nat \<Rightarrow> ('a \<Rightarrow> real \<Rightarrow> error + 'v) \<Rightarrow> real \<Rightarrow> 'a \<Rightarrow> (int \<times> 'a, 'v) cache
     \<Rightarrow> (error + 'v) \<times> (int \<times> 'a, 'v) cache" where
  "ttl_lru_cache seconds_to_live maxsize func now args c =
     (if seconds_to_live = 0 then (Inl ZeroDivisionError, c)
      else lru_cache maxsize (\<lambda>(ttl, a). func a now)
             (\<lfloor>now / of_int seconds_to_live\<rfloor>, args) c)"

text \<open>
  \<open>lru_cache_with_ttl(maxsize, typed, ttl)\<close>: the cache stores \<open>Result\<close> objects,
  and \<open>wrapper\<close> refreshes a dead one in place, so the refreshed object is the one the
  cache holds. \<open>monotonic()\<close> is read as \<open>now\<close>; the clock does not advance
  within one call.
\<close>

record 'v Result =
  "value" :: 'v
  death :: real

definition lru_cache_with_ttl ::
  "nat \<Rightarrow> real \<Rightarrow> ('a \<Rightarrow> real \<Rightarrow> error + 'v) \<Rightarrow> real \<Rightarrow> 'a \<Rightarrow> ('a, 'v Result) cache
     \<Rightarrow> (error + 'v) \<times> ('a, 'v Result) cache" where
  "lru_cache_with_ttl maxsize ttl func now args c =
     (case lru_cache maxsize
             (\<lambda>a. case func a now of
                    Inl e \<Rightarrow> Inl e
                  | Inr v \<Rightarrow> Inr \<lparr>value = v, death = now + ttl\<rparr>) args c of
        (Inl e, c') \<Rightarrow> (Inl e, c')
      | (Inr result, c') \<Rightarrow>
          if death result < now then
            (case func args now of
               Inl e \<Rightarrow> (Inl e, c'\<lparr>calls := Suc (calls c')\<rparr>)
             | Inr v \<Rightarrow>
                 (Inr v,
                  c'\<lparr>entries :=
                        map (\<lambda>(k, r). if k = args then (k, \<lparr>value = v, death = now + ttl\<rparr>)
                                       else (k, r))
                          (entries c'),
                      calls := Suc (calls c')\<rparr>))
          else (Inr (value result), c'))"

section \<open>collectors/xml\_api.py\<close>

subsection \<open>\<open>floatify\<close>\<close>

text \<open>
  A datapoint's value is a number, a \<open>BOOLEAN\<close>, or something else (an IP address, a
  party date). Python floats are modelled as reals.
\<close>

datatype BOOLEAN = TRUE | FALSE

datatype datapoint_value = Number real | Boolean BOOLEAN | Other string

fun floatify :: "datapoint_value \<Rightarrow> real" where
  "floatify (Number x) = x"
| "floatify (Boolean TRUE) = 1"
| "floatify _ = 0"

subsection \<open>\<open>HomeMaticCollector.__init__\<close>\<close>

text \<open>
  The collector keeps the host and the client, which is built from the second component
  of \<open>auth\<close> (the session id) and \<open>verify\<close>. A Python tuple is modelled as the list
  of its components, so that \<open>len(auth)\<close> is \<open>length auth\<close>.
\<close>

record HomeMaticCollector =
  host :: string
  session_id :: "string option"
  verify :: bool

definition HomeMaticCollector_init ::
  "string \<Rightarrow> string option list \<Rightarrow> bool \<Rightarrow> error + HomeMaticCollector" where
  "HomeMaticCollector_init h auth v =
     (if length auth > 2
      then Inr \<lparr>host = h, session_id = auth ! 1, verify = v\<rparr>
      else Inl AssertionError)"

subsection \<open>The controller's listings\<close>

text \<open>
  The answers of the XML API client, each the listing or the exception of the call. A
  channel of a directory entry is modelled by its \<open>ise_id\<close>. The enumerations
  \<open>DataPointType\<close> and \<open>DataPointUnit\<close> belong to the client library: the model has
  the members the collector names and one constructor for all others (the unit
  \<open>VOLTAGE\<close> is written \<open>U_VOLTAGE\<close>, the type keeps the name).
\<close>

datatype DataPointType =
    RSSI_DEVICE | RSSI_PEER | ACTUAL_TEMPERATURE | TEMPERATURE | HUMIDITY | LEVEL
  | OPERATING_VOLTAGE | ENERGY_COUNTER | CURRENT | VOLTAGE | POWER | OtherType string

datatype DataPointUnit =
    DECIMAL_PERCENT | PERCENT | UNKNOWN | U_VOLTAGE | WATT_HOUR | WATT | MILLI_AMPERE
  | OtherUnit string

record Room =
  room_name :: string
  room_channel :: "int list"

record Function =
  function_name :: string
  function_channel :: "int list"

record Device =
  device_address :: string
  device_type :: string
  device_channel :: "int list"

record datapoint =
  dp_type :: DataPointType
  valueunit :: DataPointUnit
  dp_value :: datapoint_value

record state_channel =
  ise_id :: int
  channel_name :: string
  datapoints :: "datapoint list"

record state_device =
  device_name :: string
  channels :: "state_channel list"

record PyCCU3 =
  roomlist :: "error + Room list"
  functionlist :: "error + Function list"
  devicelist :: "error + Device list"
  statelist :: "error + state_device list"

subsection \<open>The directory lookups\<close>

text \<open>
  The methods \<open>rooms\<close>, \<open>functions\<close>, \<open>devices\<close> and the three lookups are
  decorated with \<open>ttl_lru_cache\<close>, modelled above; here each is its body, what a cache
  miss runs. \<open>found\<close> is the list comprehension of the lookups: one element for every
  channel of every entry whose \<open>ise_id\<close> is the one looked up.
\<close>

definition found :: "('e \<Rightarrow> int list) \<Rightarrow> 'e list \<Rightarrow> int \<Rightarrow> 'e list" where
  "found channel_of es i =
     concat (map (\<lambda>e. map (\<lambda>channel. e) (filter (\<lambda>channel. channel = i) (channel_of e))) es)"

definition get_room_of_device :: "PyCCU3 \<Rightarrow> int \<Rightarrow> error + string" where
  "get_room_of_device client i =
     (case roomlist client of
        Inl e \<Rightarrow> Inl e
      | Inr rooms \<Rightarrow>
          (let fnd = found room_channel rooms i in
           if fnd \<noteq> [] \<and> length fnd = 1 then Inr (room_name (fnd ! 0))
           else Inr ''unknown''))"

definition get_device_address_of_device :: "PyCCU3 \<Rightarrow> int \<Rightarrow> error + string \<times> string" where
  "get_device_address_of_device client i =
     (case devicelist client of
        Inl e \<Rightarrow> Inl e
      | Inr devices \<Rightarrow>
          (let fnd = found device_channel devices i in
           if fnd \<noteq> [] \<and> length fnd = 1
           then Inr (device_address (fnd ! 0), device_type (fnd ! 0))
           else Inr (''unknown'', ''unknown'')))"

definition get_function_of_device :: "PyCCU3 \<Rightarrow> int \<Rightarrow> error + string" where
  "get_function_of_device client i =
     (case functionlist client of
        Inl e \<Rightarrow> Inl e
      | Inr functions \<Rightarrow>
          (let fnd = found function_channel functions i in
           if fnd \<noteq> [] \<and> length fnd = 1 then Inr (function_name (fnd ! 0))
           else Inr ''unknown''))"

subsection \<open>\<open>HomeMaticCollector.collect\<close>\<close>

text \<open>
  A metric family is modelled by its samples, each the label values and the value
  handed to \<open>add_metric\<close>; the dictionary \<open>metrics\<close> maps a key to its family.
  \<open>add_metric\<close> is the method of the Prometheus client library: it appends one
  sample to the family's list and looks at no earlier sample. \<open>metrics[k]\<close> raises
  \<open>KeyError\<close> for a key the dictionary does not have.
\<close>

type_synonym sample = "string list \<times> real"

type_synonym metrics = "string \<rightharpoonup> sample list"

definition add_metric :: "string \<Rightarrow> string list \<Rightarrow> real \<Rightarrow> metrics \<Rightarrow> error + metrics" where
  "add_metric k labels v m =
     (case m k of
        None \<Rightarrow> Inl KeyError
      | Some samples \<Rightarrow> Inr (m(k \<mapsto> samples @ [(labels, v)])))"

definition metric_keys :: "string list" where
  "metric_keys =
     [''rssi'', ''temperature'', ''humidity'', ''battery'', ''level'', ''energy'',
      ''current'', ''voltage'', ''power'']"

definition metrics_init :: metrics where
  "metrics_init = map_of (map (\<lambda>k. (k, [])) metric_keys)"

text \<open>
  The statement \<open>match datapoint.type\<close> of \<open>collect\<close>: every branch calls
  \<open>add_metric\<close> at most once, and \<open>datapoint_metric\<close> is that call (the key of the
  family, the labels and the value), or \<open>None\<close> where the branch adds nothing.
\<close>

definition datapoint_metric ::
  "string list \<Rightarrow> datapoint \<Rightarrow> (string \<times> string list \<times> real) option" where
  "datapoint_metric base_labels dp =
     (case dp_type dp of
        RSSI_DEVICE \<Rightarrow>
          Some (''rssi'', base_labels @ [''ccu->device''], floatify (dp_value dp))
      | RSSI_PEER \<Rightarrow>
          Some (''rssi'', base_labels @ [''device->ccu''], floatify (dp_value dp))
      | ACTUAL_TEMPERATURE \<Rightarrow> Some (''temperature'', base_labels, floatify (dp_value dp))
      | TEMPERATURE \<Rightarrow> Some (''temperature'', base_labels, floatify (dp_value dp))
      | HUMIDITY \<Rightarrow>
          (let v = (case valueunit dp of
                      DECIMAL_PERCENT \<Rightarrow> Number (floatify (dp_value dp) / 100)
                    | _ \<Rightarrow> dp_value dp)
           in Some (''humidity'', base_labels, floatify v))
      | LEVEL \<Rightarrow>
          (case valueunit dp of
             PERCENT \<Rightarrow> Some (''level'', base_labels, floatify (dp_value dp))
           | _ \<Rightarrow> None)
      | OPERATING_VOLTAGE \<Rightarrow>
          (case valueunit dp of
             UNKNOWN \<Rightarrow> Some (''battery'', base_labels, floatify (dp_value dp))
           | U_VOLTAGE \<Rightarrow> None
           | _ \<Rightarrow> None)
      | ENERGY_COUNTER \<Rightarrow>
          (let v = (case valueunit dp of
                      WATT_HOUR \<Rightarrow> Number (floatify (dp_value dp) * 3600)
                    | WATT \<Rightarrow> Number (floatify (dp_value dp) * 1)
                    | _ \<Rightarrow> dp_value dp)
           in Some (''energy'', base_labels, floatify v))
      | CURRENT \<Rightarrow>
          (let v = (case valueunit dp of
                      MILLI_AMPERE \<Rightarrow> Number (floatify (dp_value dp) / 1000)
                    | _ \<Rightarrow> dp_value dp)
           in Some (''current'', base_labels, floatify v))
      | VOLTAGE \<Rightarrow>
          (case valueunit dp of
             U_VOLTAGE \<Rightarrow> Some (''voltage'', base_labels, floatify (dp_value dp))
           | _ \<Rightarrow> None)
      | POWER \<Rightarrow>
          (case valueunit dp of
             WATT \<Rightarrow> Some (''power'', base_labels, floatify (dp_value dp))
           | _ \<Rightarrow> None)
      | OtherType _ \<Rightarrow> None)"

definition process_datapoint :: "string list \<Rightarrow> datapoint \<Rightarrow> metrics \<Rightarrow> error + metrics" where
  "process_datapoint base_labels dp m =
     (case datapoint_metric base_labels dp of
        None \<Rightarrow> Inr m
      | Some (k, labels, v) \<Rightarrow> add_metric k labels v m)"

text \<open>The labels of a channel: the three lookups, in the order of the source.\<close>

definition base_labels_of ::
  "HomeMaticCollector \<Rightarrow> PyCCU3 \<Rightarrow> state_device \<Rightarrow> state_channel \<Rightarrow> error + string list" where
  "base_labels_of self client device channel =
     (case get_device_address_of_device client (ise_id channel) of
        Inl e \<Rightarrow> Inl e
      | Inr (address, dtype) \<Rightarrow>
          (case get_room_of_device client (ise_id channel) of
             Inl e \<Rightarrow> Inl e
           | Inr room \<Rightarrow>
               (case get_function_of_device client (ise_id channel) of
                  Inl e \<Rightarrow> Inl e
                | Inr func \<Rightarrow>
                    Inr [host self, device_name device, address, dtype,
                         channel_name channel, room, func])))"

definition process_channel ::
  "HomeMaticCollector \<Rightarrow> PyCCU3 \<Rightarrow> state_device \<Rightarrow> state_channel \<Rightarrow> metrics
     \<Rightarrow> error + metrics" where
  "process_channel self client device channel m =
     (case base_labels_of self client device channel of
        Inl e \<Rightarrow> Inl e
      | Inr base_labels \<Rightarrow> for_each (process_datapoint base_labels) (datapoints channel) m)"

definition process_state_device ::
  "HomeMaticCollector \<Rightarrow> PyCCU3 \<Rightarrow> state_device \<Rightarrow> metrics \<Rightarrow> error + metrics" where
  "process_state_device self client device m =
     for_each (process_channel self client device) (channels device) m"

definition collect :: "HomeMaticCollector \<Rightarrow> PyCCU3 \<Rightarrow> error + metrics" where
  "collect self client =
     (case statelist client of
        Inl e \<Rightarrow> Inl e
      | Inr states \<Rightarrow> for_each (process_state_device self client) states metrics_init)"

section \<open>collectors/legacy.py\<close>

subsection \<open>Values of a parameter set and Python's conversions\<close>

text \<open>
  A value of a parameter set, as XML-RPC delivers it; \<open>RNone\<close> is Python's
  \<open>None\<close>, which \<open>paramset.get(key)\<close> also returns for a key the set lacks.
\<close>

datatype rpc_value = RNone | RStr string | RInt int | RFloat real | RBool bool

text \<open>
  \<open>float(s)\<close> and \<open>int(s)\<close> of a string: surrounding whitespace is dropped, a sign
  may lead, and the rest is decimal digits (for \<open>float\<close> with at most one point and a
  digit on one side of it at least). Python also reads exponents, underscores between
  digits, \<open>inf\<close> and \<open>nan\<close>; the model reads none of these, and no statement below
  is about such a string.
\<close>

definition digit_of :: "char \<Rightarrow> nat option" where
  "digit_of c =
     (let n = (of_char c :: nat) in if 48 \<le> n \<and> n \<le> 57 then Some (n - 48) else None)"

fun digits_val :: "nat \<Rightarrow> string \<Rightarrow> nat option" where
  "digits_val acc [] = Some acc"
| "digits_val acc (c # cs) =
     (case digit_of c of None \<Rightarrow> None | Some d \<Rightarrow> digits_val (10 * acc + d) cs)"

definition is_space :: "char \<Rightarrow> bool" where
  "is_space c = ((of_char c :: nat) \<in> {9, 10, 11, 12, 13, 32})"

definition strip :: "string \<Rightarrow> string" where
  "strip s = rev (dropWhile is_space (rev (dropWhile is_space s)))"

definition split_sign :: "string \<Rightarrow> int \<times> string" where
  "split_sign s =
     (case s of
        [] \<Rightarrow> (1, [])
      | c # cs \<Rightarrow> if c = CHR ''-'' then (- 1, cs) else if c = CHR ''+'' then (1, cs) else (1, s))"

definition int_of_str :: "string \<Rightarrow> int option" where
  "int_of_str s =
     (let (sgn, body) = split_sign (strip s) in
      if body = [] then None
      else (case digits_val 0 body of None \<Rightarrow> None | Some n \<Rightarrow> Some (sgn * int n)))"

definition float_of_str :: "string \<Rightarrow> real option" where
  "float_of_str s =
     (let (sgn, body) = split_sign (strip s);
          ip = takeWhile (\<lambda>c. c \<noteq> CHR ''.'') body;
          fp = drop 1 (dropWhile (\<lambda>c. c \<noteq> CHR ''.'') body)
      in if ip = [] \<and> fp = [] then None
         else (case (digits_val 0 ip, digits_val 0 fp) of
                 (Some a, Some b) \<Rightarrow> Some (of_int sgn * (real a + real b / 10 ^ length fp))
               | _ \<Rightarrow> None))"

fun py_float :: "rpc_value \<Rightarrow> error + real" where
  "py_float RNone = Inl TypeError"
| "py_float (RStr s) = (case float_of_str s of None \<Rightarrow> Inl ValueError | Some x \<Rightarrow> Inr x)"
| "py_float (RInt i) = Inr (of_int i)"
| "py_float (RFloat x) = Inr x"
| "py_float (RBool b) = Inr (if b then 1 else 0)"

fun py_int :: "rpc_value \<Rightarrow> error + int" where
  "py_int RNone = Inl TypeError"
| "py_int (RStr s) = (case int_of_str s of None \<Rightarrow> Inl ValueError | Some i \<Rightarrow> Inr i)"
| "py_int (RInt i) = Inr i"
| "py_int (RFloat x) = Inr (if 0 \<le> x then \<lfloor>x\<rfloor> else \<lceil>x\<rceil>)"
| "py_int (RBool b) = Inr (if b then 1 else 0)"

text \<open>\<open>xs[i]\<close>: an index below zero counts from the end of the list.\<close>

definition subscript :: "'a list \<Rightarrow> int \<Rightarrow> error + 'a" where
  "subscript xs i =
     (if 0 \<le> i \<and> i < int (length xs) then Inr (xs ! nat i)
      else if i < 0 \<and> - int (length xs) \<le> i then Inr (xs ! nat (int (length xs) + i))
      else Inl IndexError)"

text \<open>\<open>str.lower\<close> on ASCII letters; other bytes are left as they are.\<close>

definition lower :: "string \<Rightarrow> string" where
  "lower s =
     map (\<lambda>c. let n = (of_char c :: nat) in if 65 \<le> n \<and> n \<le> 90 then char_of (n + 32) else c) s"

text \<open>\<open>s.find(":")\<close>: the index of the first colon, or \<open>-1\<close>.\<close>

definition find_colon :: "string \<Rightarrow> int" where
  "find_colon s =
     (if CHR '':'' \<in> set s then int (length (takeWhile (\<lambda>c. c \<noteq> CHR '':'') s)) else - 1)"

subsection \<open>The collector and the controller's answers\<close>

text \<open>
  \<open>HomeMaticRPCDevice\<close> and the client belong to the client library; the records
  have the attributes the collector reads. The client's record holds, for each call, its
  answer or the exception it raises. A description of a parameter is a dictionary of
  which the items \<open>TYPE\<close> and \<open>VALUE_LIST\<close> are read; a dictionary that is iterated is the
  list of its items, in their order.
\<close>

record HomeMaticRPCDevice =
  address :: string
  "type" :: string
  parent :: string
  parent_type :: string
  children :: "string list"
  paramsets :: "string list"
  default_device :: bool

record param_desc =
  desc_TYPE :: "string option"
  desc_VALUE_LIST :: "string list option"

record PyCCU3Legacy =
  devices :: "error + HomeMaticRPCDevice list"
  paramset :: "string \<Rightarrow> error + (string \<rightharpoonup> rpc_value)"
  paramset_description :: "string \<Rightarrow> error + (string \<times> param_desc) list"
  device_names :: "error + (string \<times> string option) list"

text \<open>
  The configuration file, parsed: each of the three keys may be missing. The constants
  \<open>SUPPORTED_DEVICE_TYPES\<close> and \<open>CHANNELS_WITH_ERRORS_ALLOWED\<close> of the client
  library are parameters of the constructor's model. \<open>config = None\<close> is a
  constructor call without \<open>config_filename\<close>.
\<close>

record config =
  device_mapping :: "(string \<rightharpoonup> string) option"
  config_supported_device_types :: "string list option"
  config_channels_with_errors_allowed :: "(string \<rightharpoonup> int list) option"

record HomeMaticLegacyCollector =
  legacy_host :: string
  default_mapped_names :: bool
  mapped_names :: "string \<rightharpoonup> string"
  supported_device_types :: "string list"
  channels_with_errors_allowed :: "string \<rightharpoonup> int list"

definition HomeMaticLegacyCollector_init ::
  "string list \<Rightarrow> (string \<rightharpoonup> int list) \<Rightarrow> string \<Rightarrow> config option
     \<Rightarrow> HomeMaticLegacyCollector" where
  "HomeMaticLegacyCollector_init SUPPORTED_DEVICE_TYPES CHANNELS_WITH_ERRORS_ALLOWED h cfg =
     (case cfg of
        None \<Rightarrow>
          \<lparr>legacy_host = h, default_mapped_names = True, mapped_names = Map.empty,
           supported_device_types = SUPPORTED_DEVICE_TYPES,
           channels_with_errors_allowed = CHANNELS_WITH_ERRORS_ALLOWED\<rparr>
      | Some config \<Rightarrow>
          \<lparr>legacy_host = h, default_mapped_names = False,
           mapped_names = (case device_mapping config of None \<Rightarrow> Map.empty | Some d \<Rightarrow> d),
           supported_device_types =
             (case config_supported_device_types config of
                None \<Rightarrow> SUPPORTED_DEVICE_TYPES | Some t \<Rightarrow> t),
           channels_with_errors_allowed =
             (case config_channels_with_errors_allowed config of
                None \<Rightarrow> CHANNELS_WITH_ERRORS_ALLOWED | Some a \<Rightarrow> a)\<rparr>)"

subsection \<open>\<open>get_mappings\<close> and \<open>resolve_mapped_name\<close>\<close>

text \<open>
  \<open>get_mappings\<close> returns a dictionary when \<open>default_mapped_names\<close> is set, and
  falls off its end otherwise: it returns Python's \<open>None\<close>, here the inner
  \<open>None\<close>. The dictionary comprehension lets a later item of the listing replace an
  earlier one with the same address. The method is decorated with \<open>ttl_lru_cache\<close>;
  this is its body.
\<close>

definition get_mappings ::
  "HomeMaticLegacyCollector \<Rightarrow> PyCCU3Legacy \<Rightarrow> error + (string \<rightharpoonup> string) option" where
  "get_mappings self client =
     (if default_mapped_names self then
        (case device_names client of
           Inl e \<Rightarrow> Inl e
         | Inr names \<Rightarrow>
             Inr (Some (foldl (\<lambda>d (a, n). d(a \<mapsto> (case n of None \<Rightarrow> ''unknown'' | Some x \<Rightarrow> x)))
                          Map.empty names)))
      else Inr None)"

text \<open>\<open>mapped_names.keys()\<close> on \<open>None\<close> raises \<open>AttributeError\<close>.\<close>

definition resolve_mapped_name ::
  "HomeMaticLegacyCollector \<Rightarrow> PyCCU3Legacy \<Rightarrow> HomeMaticRPCDevice \<Rightarrow> error + string" where
  "resolve_mapped_name self client device =
     (case get_mappings self client of
        Inl e \<Rightarrow> Inl e
      | Inr None \<Rightarrow> Inl AttributeError
      | Inr (Some names) \<Rightarrow>
          if names (address device) \<noteq> None \<and> \<not> default_device device then
            (case names (address device) of None \<Rightarrow> Inl KeyError | Some n \<Rightarrow> Inr n)
          else if names (parent device) \<noteq> None then
            (case names (parent device) of None \<Rightarrow> Inl KeyError | Some n \<Rightarrow> Inr n)
          else Inr (address device))"

subsection \<open>\<open>process_single_value\<close> and \<open>process_enum\<close>\<close>

text \<open>
  \<open>self.metrics\<close> is the dictionary of families, threaded through the pass. A family
  is created, empty, when its key is not in the dictionary yet. In
  \<open>process_single_value\<close> the tuple of labels is evaluated before \<open>float(value)\<close>,
  so a failing name resolution is the exception that leaves.
\<close>

definition ensure_family :: "string \<Rightarrow> metrics \<Rightarrow> metrics" where
  "ensure_family gaugename m = (if m gaugename = None then m(gaugename \<mapsto> []) else m)"

definition process_single_value ::
  "HomeMaticLegacyCollector \<Rightarrow> PyCCU3Legacy \<Rightarrow> HomeMaticRPCDevice \<Rightarrow> string \<Rightarrow> string
     \<Rightarrow> rpc_value \<Rightarrow> metrics \<Rightarrow> error + metrics" where
  "process_single_value self client device paramType key v m =
     (if v = RStr [] \<or> v = RNone then Inr m
      else
        (let gaugename = lower key; m1 = ensure_family gaugename m in
         case resolve_mapped_name self client device of
           Inl e \<Rightarrow> Inl e
         | Inr mapped_name \<Rightarrow>
             (case py_float v of
                Inl e \<Rightarrow> Inl e
              | Inr x \<Rightarrow>
                  add_metric gaugename
                    [legacy_host self, address device, type device, parent_type device,
                     mapped_name] x m1)))"

text \<open>
  In \<open>istates[int(value)]\<close> the conversion runs first; \<open>istates\<close> is
  \<open>paramDesc.get("VALUE_LIST")\<close>, which is \<open>None\<close> for a description without a
  list, and \<open>None\<close> cannot be subscripted.
\<close>

definition process_enum ::
  "HomeMaticLegacyCollector \<Rightarrow> PyCCU3Legacy \<Rightarrow> HomeMaticRPCDevice \<Rightarrow> string \<Rightarrow> rpc_value
     \<Rightarrow> string list option \<Rightarrow> metrics \<Rightarrow> error + metrics" where
  "process_enum self client device key v istates m =
     (if v = RStr [] \<or> v = RNone then Inr m
      else
        (let gaugename = lower key @ ''_set''; m1 = ensure_family gaugename m in
         case resolve_mapped_name self client device of
           Inl e \<Rightarrow> Inl e
         | Inr mapped_name_v \<Rightarrow>
             (case py_int v of
                Inl e \<Rightarrow> Inl e
              | Inr i \<Rightarrow>
                  (case istates of
                     None \<Rightarrow> Inl TypeError
                   | Some states \<Rightarrow>
                       (case subscript states i of
                          Inl e \<Rightarrow> Inl e
                        | Inr state \<Rightarrow>
                            for_each
                              (\<lambda>istate.
                                 add_metric gaugename
                                   [legacy_host self, address device, type device,
                                    parent_type device, mapped_name_v, istate]
                                   (if state = istate then 1 else 0))
                              states m1)))))"

subsection \<open>\<open>generate_metrics\<close>\<close>

text \<open>The body of the loop over the keys of the description of a parameter set.\<close>

definition process_param ::
  "HomeMaticLegacyCollector \<Rightarrow> PyCCU3Legacy \<Rightarrow> HomeMaticRPCDevice \<Rightarrow> (string \<rightharpoonup> rpc_value)
     \<Rightarrow> string \<times> param_desc \<Rightarrow> metrics \<Rightarrow> error + metrics" where
  "process_param self client device pset item m =
     (let key = fst item; paramDesc = snd item;
          v = (case pset key of None \<Rightarrow> RNone | Some x \<Rightarrow> x)
      in case desc_TYPE paramDesc of
           None \<Rightarrow> Inr m
         | Some paramType \<Rightarrow>
             if paramType \<in> set [''FLOAT'', ''INTEGER'', ''BOOL''] then
               process_single_value self client device paramType key v m
             else if paramType = ''ENUM'' then
               process_enum self client device key v (desc_VALUE_LIST paramDesc) m
             else Inr m)"

text \<open>
  Whether a failing read of the parameter set is allowed for the device: the channel is
  the number after the first colon of the address.
\<close>

definition allow_failed_channel ::
  "HomeMaticLegacyCollector \<Rightarrow> HomeMaticRPCDevice \<Rightarrow> error + bool" where
  "allow_failed_channel self device =
     (case channels_with_errors_allowed self (parent_type device) of
        None \<Rightarrow> Inr False
      | Some invalidChannels \<Rightarrow>
          (case py_int (RStr (drop (nat (find_colon (address device) + 1)) (address device))) of
             Inl e \<Rightarrow> Inl e
           | Inr channel \<Rightarrow> Inr (channel \<in> set invalidChannels)))"

text \<open>
  The body of the loop over the devices. Only \<open>xmlrpc.client.Fault\<close> is caught, and
  only around the read of the parameter set; it is raised again unless the channel may
  fail, and then the parameter set stays empty.
\<close>

definition read_paramset ::
  "PyCCU3Legacy \<Rightarrow> HomeMaticRPCDevice \<Rightarrow> bool \<Rightarrow> error + (string \<rightharpoonup> rpc_value)" where
  "read_paramset client device allowFailedChannel =
     (case paramset client (address device) of
        Inr p \<Rightarrow> Inr p
      | Inl e \<Rightarrow> if e = Fault \<and> allowFailedChannel then Inr Map.empty else Inl e)"

definition process_device ::
  "HomeMaticLegacyCollector \<Rightarrow> PyCCU3Legacy \<Rightarrow> HomeMaticRPCDevice \<Rightarrow> metrics
     \<Rightarrow> error + metrics" where
  "process_device self client device m =
     (if parent_type device \<in> set (supported_device_types self) then
        (case allow_failed_channel self device of
           Inl e \<Rightarrow> Inl e
         | Inr allowFailedChannel \<Rightarrow>
             if ''VALUES'' \<in> set (paramsets device) then
               (case read_paramset client device allowFailedChannel of
                  Inl e \<Rightarrow> Inl e
                | Inr pset \<Rightarrow>
                    (case paramset_description client (address device) of
                       Inl e \<Rightarrow> Inl e
                     | Inr paramsetDescription \<Rightarrow>
                         for_each (process_param self client device pset)
                           paramsetDescription m))
             else Inr m)
      else Inr m)"

text \<open>
  \<open>generate_metrics\<close>, from the families \<open>self.metrics\<close> holds when the pass
  starts: the family \<open>devicecount\<close> is created anew and given its one sample before
  the loop over the devices.
\<close>

definition generate_metrics ::
  "HomeMaticLegacyCollector \<Rightarrow> PyCCU3Legacy \<Rightarrow> metrics \<Rightarrow> error + metrics" where
  "generate_metrics self client m =
     (case devices client of
        Inl e \<Rightarrow> Inl e
      | Inr devs \<Rightarrow>
          for_each (process_device self client) devs
            (m(''devicecount'' \<mapsto> [([legacy_host self], real (length devs))])))"

section \<open>The specification's dispatch table\<close>

text \<open>
  The table of the specification's section 4.3, row by row, for the comparison with
  \<open>datapoint_metric\<close>: the metric kind and the conversion declared for a raw type
  and a raw unit, \<open>None\<close> where the table drops the pair. A row without a unit applies
  to all units; \<open>other\<close> is every unit no earlier row of the type names.
\<close>

definition declared_table ::
  "DataPointType \<Rightarrow> DataPointUnit \<Rightarrow> (string \<times> (real \<Rightarrow> real)) option" where
  "declared_table t u =
     (if t = RSSI_DEVICE \<or> t = RSSI_PEER then Some (''rssi'', \<lambda>x. x)
      else if t = ACTUAL_TEMPERATURE \<or> t = TEMPERATURE then Some (''temperature'', \<lambda>x. x)
      else if t = HUMIDITY then
        (if u = DECIMAL_PERCENT then Some (''humidity'', \<lambda>x. x / 100)
         else Some (''humidity'', \<lambda>x. x))
      else if t = LEVEL \<and> u = PERCENT then Some (''level'', \<lambda>x. x)
      else if t = OPERATING_VOLTAGE \<and> u = UNKNOWN then Some (''battery'', \<lambda>x. x)
      else if t = ENERGY_COUNTER \<and> u = WATT_HOUR then Some (''energy'', \<lambda>x. x * 3600)
      else if t = ENERGY_COUNTER \<and> u = WATT then Some (''energy'', \<lambda>x. x)
      else if t = CURRENT then
        (if u = MILLI_AMPERE then Some (''current'', \<lambda>x. x / 1000)
         else Some (''current'', \<lambda>x. x))
      else if t = VOLTAGE \<and> u = U_VOLTAGE then Some (''voltage'', \<lambda>x. x)
      else if t = POWER \<and> u = WATT then Some (''power'', \<lambda>x. x)
      else None)"

text \<open>The kind and the value of what \<open>datapoint_metric\<close> returns, without the labels.\<close>

definition observation ::
  "(string \<times> string list \<times> real) option \<Rightarrow> (string \<times> real) option" where
  "observation r = (case r of None \<Rightarrow> None | Some (k, labels, x) \<Rightarrow> Some (k, x))"

section \<open>The observations of a pass\<close>

text \<open>
  What the readings of a snapshot add to the family \<open>k\<close>, for the statement of what a
  pass of \<open>collect\<close> holds: the sample of every datapoint that \<open>datapoint_metric\<close>
  gives to \<open>k\<close>, in the order of the datapoints, of the channels and of the devices.
  Nothing is compared with an earlier sample.
\<close>

definition kind_samples :: "string \<Rightarrow> string list \<Rightarrow> datapoint list \<Rightarrow> sample list" where
  "kind_samples k base_labels dps =
     concat (map (\<lambda>dp. case datapoint_metric base_labels dp of
                         None \<Rightarrow> []
                       | Some (k', labels, v) \<Rightarrow> if k' = k then [(labels, v)] else []) dps)"

definition channel_samples ::
  "string \<Rightarrow> HomeMaticCollector \<Rightarrow> PyCCU3 \<Rightarrow> state_device \<Rightarrow> state_channel \<Rightarrow> sample list" where
  "channel_samples k self client device channel =
     (case base_labels_of self client device channel of
        Inl e \<Rightarrow> []
      | Inr base_labels \<Rightarrow> kind_samples k base_labels (datapoints channel))"

definition pass_samples ::
  "string \<Rightarrow> HomeMaticCollector \<Rightarrow> PyCCU3 \<Rightarrow> state_device list \<Rightarrow> sample list" where
  "pass_samples k self client states =
     concat (map (\<lambda>device. concat (map (channel_samples k self client device) (channels device)))
               states)"

text \<open>
  The samples of a family; a family that does not exist has none.
\<close>

definition samples_of :: "metrics \<Rightarrow> string \<Rightarrow> sample list" where
  "samples_of m k = (case m k of None \<Rightarrow> [] | Some samples \<Rightarrow> samples)"

text \<open>
  What a pass of \<open>generate_metrics\<close> adds to the family \<open>k\<close>, for the statement of
  what such a pass holds. A parameter of type \<open>FLOAT\<close>, \<open>INTEGER\<close> or \<open>BOOL\<close>
  whose value is not empty gives one sample to the family of its lower-cased key; a
  parameter of type \<open>ENUM\<close> whose value is not empty gives one sample per declared state
  to the family of its lower-cased key with \<open>_set\<close>; any other parameter gives nothing.
  The samples follow the order of the description of the parameter set, and of the
  devices. Nothing is compared with an earlier sample. In a pass that completes the name
  has resolved and the value has converted; the other branches are there to make the
  functions total.
\<close>

definition single_value_samples ::
  "HomeMaticLegacyCollector \<Rightarrow> PyCCU3Legacy \<Rightarrow> HomeMaticRPCDevice \<Rightarrow> string \<Rightarrow> rpc_value
     \<Rightarrow> string \<Rightarrow> sample list" where
  "single_value_samples self client device key v k =
     (if v = RStr [] \<or> v = RNone \<or> k \<noteq> lower key then []
      else
        (case (resolve_mapped_name self client device, py_float v) of
           (Inr mapped_name, Inr x) \<Rightarrow>
             [([legacy_host self, address device, type device, parent_type device,
                mapped_name], x)]
         | _ \<Rightarrow> []))"

definition enum_samples ::
  "HomeMaticLegacyCollector \<Rightarrow> PyCCU3Legacy \<Rightarrow> HomeMaticRPCDevice \<Rightarrow> string \<Rightarrow> rpc_value
     \<Rightarrow> string list option \<Rightarrow> string \<Rightarrow> sample list" where
  "enum_samples self client device key v istates k =
     (if v = RStr [] \<or> v = RNone \<or> k \<noteq> lower key @ ''_set'' then []
      else
        (case (resolve_mapped_name self client device, py_int v, istates) of
           (Inr mapped_name, Inr i, Some states) \<Rightarrow>
             (case subscript states i of
                Inl e \<Rightarrow> []
              | Inr state \<Rightarrow>
                  map (\<lambda>istate.
                         ([legacy_host self, address device, type device, parent_type device,
                           mapped_name, istate], if state = istate then 1 else 0))
                    states)
         | _ \<Rightarrow> []))"

definition param_samples ::
  "HomeMaticLegacyCollector \<Rightarrow> PyCCU3Legacy \<Rightarrow> HomeMaticRPCDevice \<Rightarrow> (string \<rightharpoonup> rpc_value)
     \<Rightarrow> string \<Rightarrow> string \<times> param_desc \<Rightarrow> sample list" where
  "param_samples self client device pset k item =
     (let key = fst item; paramDesc = snd item;
          v = (case pset key of None \<Rightarrow> RNone | Some x \<Rightarrow> x)
      in case desc_TYPE paramDesc of
           None \<Rightarrow> []
         | Some paramType \<Rightarrow>
             if paramType \<in> set [''FLOAT'', ''INTEGER'', ''BOOL''] then
               single_value_samples self client device key v k
             else if paramType = ''ENUM'' then
               enum_samples self client device key v (desc_VALUE_LIST paramDesc) k
             else [])"

definition device_samples ::
  "HomeMaticLegacyCollector \<Rightarrow> PyCCU3Legacy \<Rightarrow> string \<Rightarrow> HomeMaticRPCDevice \<Rightarrow> sample list" where
  "device_samples self client k device =
     (if parent_type device \<in> set (supported_device_types self) \<and>
         ''VALUES'' \<in> set (paramsets device) then
        (case allow_failed_channel self device of
           Inl e \<Rightarrow> []
         | Inr allowFailedChannel \<Rightarrow>
             (case read_paramset client device allowFailedChannel of
                Inl e \<Rightarrow> []
              | Inr pset \<Rightarrow>
                  (case paramset_description client (address device) of
                     Inl e \<Rightarrow> []
                   | Inr paramsetDescription \<Rightarrow>
                       concat (map (param_samples self client device pset k)
                                 paramsetDescription))))
      else [])"

definition legacy_pass_samples ::
  "string \<Rightarrow> HomeMaticLegacyCollector \<Rightarrow> PyCCU3Legacy \<Rightarrow> HomeMaticRPCDevice list \<Rightarrow> sample list" where
  "legacy_pass_samples k self client devs = concat (map (device_samples self client k) devs)"

section \<open>Example inputs\<close>

text \<open>
  A controller of the state-listing integration with one thermostat of one channel, which
  is in one room and one function, and the collector for it.
\<close>

definition example_collector :: HomeMaticCollector where
  "example_collector = \<lparr>host = ''ccu'', session_id = Some ''s'', verify = False\<rparr>"

definition example_ccu :: "datapoint list \<Rightarrow> PyCCU3" where
  "example_ccu dps =
     \<lparr>roomlist = Inr [\<lparr>room_name = ''Kitchen'', room_channel = [7]\<rparr>],
      functionlist = Inr [\<lparr>function_name = ''Heating'', function_channel = [7]\<rparr>],
      devicelist = Inr [\<lparr>device_address = ''ABC0001'', device_type = ''HmIP-eTRV'',
                         device_channel = [7]\<rparr>],
      statelist = Inr [\<lparr>device_name = ''Thermostat'',
                        channels = [\<lparr>ise_id = 7, channel_name = ''Thermostat:1'',
                                     datapoints = dps\<rparr>]\<rparr>]\<rparr>"

definition example_labels :: "string list" where
  "example_labels =
     [''ccu'', ''Thermostat'', ''ABC0001'', ''HmIP-eTRV'', ''Thermostat:1'', ''Kitchen'',
      ''Heating'']"

definition two_temperatures :: "datapoint list" where
  "two_temperatures =
     [\<lparr>dp_type = TEMPERATURE, valueunit = UNKNOWN, dp_value = Number 20\<rparr>,
      \<lparr>dp_type = ACTUAL_TEMPERATURE, valueunit = UNKNOWN, dp_value = Number 21\<rparr>]"

text \<open>
  A controller of the parameter-set integration with one channel of a plug, whose parameter
  set and description are given, and the collector built without a configuration file.
\<close>

definition example_legacy :: HomeMaticLegacyCollector where
  "example_legacy = HomeMaticLegacyCollector_init [''HmIP-PS''] Map.empty ''ccu'' None"

definition example_plug :: HomeMaticRPCDevice where
  "example_plug =
     \<lparr>address = ''ABC0001:1'', type = ''SWITCH'', parent = ''ABC0001'',
      parent_type = ''HmIP-PS'', children = [], paramsets = [''VALUES''],
      default_device = False\<rparr>"

definition example_rpc ::
  "(string \<rightharpoonup> rpc_value) \<Rightarrow> (string \<times> param_desc) list \<Rightarrow> PyCCU3Legacy" where
  "example_rpc pset desc =
     \<lparr>devices = Inr [example_plug], paramset = (\<lambda>a. Inr pset),
      paramset_description = (\<lambda>a. Inr desc),
      device_names = Inr [(''ABC0001:1'', Some ''Plug'')]\<rparr>"

definition plug_labels :: "string list" where
  "plug_labels = [''ccu'', ''ABC0001:1'', ''SWITCH'', ''HmIP-PS'', ''Plug'']"

definition float_desc :: param_desc where
  "float_desc = \<lparr>desc_TYPE = Some ''FLOAT'', desc_VALUE_LIST = None\<rparr>"

text \<open>
  A parameter set with two keys that differ only in case, and so name the same family;
  and a datapoint whose value is the empty string.
\<close>

definition two_levels :: "(string \<rightharpoonup> rpc_value) \<times> (string \<times> param_desc) list" where
  "two_levels =
     ([''LEVEL'' \<mapsto> RFloat (1 / 2), ''Level'' \<mapsto> RFloat (3 / 4)],
      [(''LEVEL'', float_desc), (''Level'', float_desc)])"

definition empty_temperature :: datapoint where
  "empty_temperature = \<lparr>dp_type = TEMPERATURE, valueunit = UNKNOWN, dp_value = Other []\<rparr>"

section \<open>Theorems\<close>

text \<open>
  C10. For every \<open>auth\<close> of the declared parameter type, a 2-tuple of optional
  strings, constructing the state-listing collector raises \<open>AssertionError\<close>: the
  constructor asserts \<open>len(auth) > 2\<close>, which no 2-tuple satisfies. This includes the
  default \<open>(None, None)\<close> and a pair \<open>(None, session_id)\<close>.
\<close>

theorem HomeMaticCollector_init_pair_raises:
  "HomeMaticCollector_init h [user, sid] v = Inl AssertionError"
  by (simp add: HomeMaticCollector_init_def)

subsection \<open>The directory lookups\<close>

lemma filter_eq_distinct:
  "distinct xs \<Longrightarrow> filter (\<lambda>c. c = i) xs = (if i \<in> set xs then [i] else [])"
  by (induction xs) (auto simp: filter_empty_conv)

lemma found_distinct:
  assumes "\<forall>e\<in>set es. distinct (ch e)"
  shows "found ch es i = filter (\<lambda>e. i \<in> set (ch e)) es"
  using assms by (induction es) (simp_all add: found_def filter_eq_distinct)

lemma single_or_unknown:
  "(if fnd \<noteq> [] \<and> length fnd = 1 then f (fnd ! 0) else u) = (case fnd of [e] \<Rightarrow> f e | _ \<Rightarrow> u)"
  by (cases fnd; cases "tl fnd") auto

text \<open>
  C4. Where the listing is available and every entry lists a channel at most once (its
  members are a set), a lookup returns the name of the entry (for the device directory
  its address and device type) when exactly one entry has the channel identifier among
  its members, and \<open>unknown\<close> when no entry or more than one has it. The result is a
  value in each case: ambiguity raises nothing.
\<close>

theorem resolve_unique_or_unknown:
  assumes "roomlist client = Inr rooms" and "\<forall>e\<in>set rooms. distinct (room_channel e)"
    and "functionlist client = Inr functions"
    and "\<forall>e\<in>set functions. distinct (function_channel e)"
    and "devicelist client = Inr devs" and "\<forall>e\<in>set devs. distinct (device_channel e)"
  shows "get_room_of_device client i =
           Inr (case filter (\<lambda>e. i \<in> set (room_channel e)) rooms of
                  [e] \<Rightarrow> room_name e | _ \<Rightarrow> ''unknown'') \<and>
         get_function_of_device client i =
           Inr (case filter (\<lambda>e. i \<in> set (function_channel e)) functions of
                  [e] \<Rightarrow> function_name e | _ \<Rightarrow> ''unknown'') \<and>
         get_device_address_of_device client i =
           Inr (case filter (\<lambda>e. i \<in> set (device_channel e)) devs of
                  [e] \<Rightarrow> (device_address e, device_type e) | _ \<Rightarrow> (''unknown'', ''unknown''))"
proof -
  have r: "found room_channel rooms i = filter (\<lambda>e. i \<in> set (room_channel e)) rooms"
    using assms(2) by (rule found_distinct)
  have f: "found function_channel functions i =
             filter (\<lambda>e. i \<in> set (function_channel e)) functions"
    using assms(4) by (rule found_distinct)
  have d: "found device_channel devs i = filter (\<lambda>e. i \<in> set (device_channel e)) devs"
    using assms(6) by (rule found_distinct)
  have "get_room_of_device client i =
           Inr (case filter (\<lambda>e. i \<in> set (room_channel e)) rooms of
                  [e] \<Rightarrow> room_name e | _ \<Rightarrow> ''unknown'')"
    unfolding get_room_of_device_def assms(1) Let_def r [symmetric]
    by (simp add: single_or_unknown [symmetric] del: One_nat_def)
  moreover have "get_function_of_device client i =
           Inr (case filter (\<lambda>e. i \<in> set (function_channel e)) functions of
                  [e] \<Rightarrow> function_name e | _ \<Rightarrow> ''unknown'')"
    unfolding get_function_of_device_def assms(3) Let_def f [symmetric]
    by (simp add: single_or_unknown [symmetric] del: One_nat_def)
  moreover have "get_device_address_of_device client i =
           Inr (case filter (\<lambda>e. i \<in> set (device_channel e)) devs of
                  [e] \<Rightarrow> (device_address e, device_type e) | _ \<Rightarrow> (''unknown'', ''unknown''))"
    unfolding get_device_address_of_device_def assms(5) Let_def d [symmetric]
    by (simp add: single_or_unknown [symmetric] del: One_nat_def)
  ultimately show ?thesis by blast
qed

text \<open>
  The theorem at a controller with two rooms, two functions and one device: channel 2 is
  in one room and one device, and in both functions.
\<close>

theorem resolve_unique_or_unknown_witness:
  "get_room_of_device
     \<lparr>roomlist = Inr [\<lparr>room_name = ''Kitchen'', room_channel = [1, 2]\<rparr>,
                      \<lparr>room_name = ''Bath'', room_channel = [3]\<rparr>],
      functionlist = Inr [\<lparr>function_name = ''Heating'', function_channel = [2, 3]\<rparr>,
                          \<lparr>function_name = ''Climate'', function_channel = [2]\<rparr>],
      devicelist = Inr [\<lparr>device_address = ''ABC0001'', device_type = ''HmIP-eTRV'',
                         device_channel = [1, 2]\<rparr>],
      statelist = Inr []\<rparr> 2 = Inr ''Kitchen'' \<and>
   get_function_of_device
     \<lparr>roomlist = Inr [\<lparr>room_name = ''Kitchen'', room_channel = [1, 2]\<rparr>,
                      \<lparr>room_name = ''Bath'', room_channel = [3]\<rparr>],
      functionlist = Inr [\<lparr>function_name = ''Heating'', function_channel = [2, 3]\<rparr>,
                          \<lparr>function_name = ''Climate'', function_channel = [2]\<rparr>],
      devicelist = Inr [\<lparr>device_address = ''ABC0001'', device_type = ''HmIP-eTRV'',
                         device_channel = [1, 2]\<rparr>],
      statelist = Inr []\<rparr> 2 = Inr ''unknown'' \<and>
   get_device_address_of_device
     \<lparr>roomlist = Inr [\<lparr>room_name = ''Kitchen'', room_channel = [1, 2]\<rparr>,
                      \<lparr>room_name = ''Bath'', room_channel = [3]\<rparr>],
      functionlist = Inr [\<lparr>function_name = ''Heating'', function_channel = [2, 3]\<rparr>,
                          \<lparr>function_name = ''Climate'', function_channel = [2]\<rparr>],
      devicelist = Inr [\<lparr>device_address = ''ABC0001'', device_type = ''HmIP-eTRV'',
                         device_channel = [1, 2]\<rparr>],
      statelist = Inr []\<rparr> 2 = Inr (''ABC0001'', ''HmIP-eTRV'')"
  using resolve_unique_or_unknown
    [of "\<lparr>roomlist = Inr [\<lparr>room_name = ''Kitchen'', room_channel = [1, 2]\<rparr>,
                          \<lparr>room_name = ''Bath'', room_channel = [3]\<rparr>],
          functionlist = Inr [\<lparr>function_name = ''Heating'', function_channel = [2, 3]\<rparr>,
                              \<lparr>function_name = ''Climate'', function_channel = [2]\<rparr>],
          devicelist = Inr [\<lparr>device_address = ''ABC0001'', device_type = ''HmIP-eTRV'',
                             device_channel = [1, 2]\<rparr>],
          statelist = Inr []\<rparr>"
        "[\<lparr>room_name = ''Kitchen'', room_channel = [1, 2]\<rparr>,
          \<lparr>room_name = ''Bath'', room_channel = [3]\<rparr>]"
        "[\<lparr>function_name = ''Heating'', function_channel = [2, 3]\<rparr>,
          \<lparr>function_name = ''Climate'', function_channel = [2]\<rparr>]"
        "[\<lparr>device_address = ''ABC0001'', device_type = ''HmIP-eTRV'',
           device_channel = [1, 2]\<rparr>]"
        2]
  by simp

subsection \<open>The classification of a datapoint\<close>

text \<open>
  C5, as amended. \<open>datapoint_metric\<close> yields at most one observation. For every pair
  of the declared table it is the declared kind with the declared conversion applied to
  the value; for a pair outside the table it is nothing, but for \<open>ENERGY_COUNTER\<close>
  with a unit other than \<open>WATT_HOUR\<close> and \<open>WATT\<close>, which yields an energy
  observation of the unconverted value. \<open>OPERATING_VOLTAGE\<close> with unit
  \<open>VOLTAGE\<close> yields nothing.
\<close>

theorem datapoint_metric_table:
  "observation (datapoint_metric base_labels dp) =
     (case declared_table (dp_type dp) (valueunit dp) of
        Some (kind, conversion) \<Rightarrow> Some (kind, conversion (floatify (dp_value dp)))
      | None \<Rightarrow>
          if dp_type dp = ENERGY_COUNTER then Some (''energy'', floatify (dp_value dp))
          else None)"
  by (cases "dp_type dp"; cases "valueunit dp")
     (simp_all add: observation_def datapoint_metric_def declared_table_def)

text \<open>The scenarios of the specification, through the theorem.\<close>

theorem datapoint_metric_table_witness:
  "observation (datapoint_metric []
      \<lparr>dp_type = HUMIDITY, valueunit = DECIMAL_PERCENT, dp_value = Number 45\<rparr>)
     = Some (''humidity'', 45 / 100) \<and>
   observation (datapoint_metric []
      \<lparr>dp_type = ENERGY_COUNTER, valueunit = WATT_HOUR, dp_value = Number 2\<rparr>)
     = Some (''energy'', 7200) \<and>
   observation (datapoint_metric []
      \<lparr>dp_type = CURRENT, valueunit = MILLI_AMPERE, dp_value = Number 500\<rparr>)
     = Some (''current'', 1 / 2) \<and>
   observation (datapoint_metric []
      \<lparr>dp_type = OPERATING_VOLTAGE, valueunit = U_VOLTAGE, dp_value = Number 230\<rparr>)
     = None"
  using
    datapoint_metric_table
      [of "[]" "\<lparr>dp_type = HUMIDITY, valueunit = DECIMAL_PERCENT, dp_value = Number 45\<rparr>"]
    datapoint_metric_table
      [of "[]" "\<lparr>dp_type = ENERGY_COUNTER, valueunit = WATT_HOUR, dp_value = Number 2\<rparr>"]
    datapoint_metric_table
      [of "[]" "\<lparr>dp_type = CURRENT, valueunit = MILLI_AMPERE, dp_value = Number 500\<rparr>"]
    datapoint_metric_table
      [of "[]" "\<lparr>dp_type = OPERATING_VOLTAGE, valueunit = U_VOLTAGE, dp_value = Number 230\<rparr>"]
  by (simp add: declared_table_def)

text \<open>
  C5 as stated fails: the table has no row for \<open>ENERGY_COUNTER\<close> with the unit
  \<open>UNKNOWN\<close>, and the collector adds an energy observation for it.
\<close>

theorem energy_counter_other_unit_counterexample:
  "declared_table ENERGY_COUNTER UNKNOWN = None \<and>
   datapoint_metric []
     \<lparr>dp_type = ENERGY_COUNTER, valueunit = UNKNOWN, dp_value = Number 5\<rparr>
     = Some (''energy'', [], 5)"
  by (simp add: declared_table_def datapoint_metric_def)

subsection \<open>The configured device names\<close>

lemma resolve_mapped_name_without_default_names:
  "resolve_mapped_name (HomeMaticLegacyCollector_init S C h (Some cfg)) client device =
     Inl AttributeError"
  by (simp add: resolve_mapped_name_def get_mappings_def HomeMaticLegacyCollector_init_def)

text \<open>
  C9. A collector built with a configuration that maps the address \<open>ABC0001:1\<close> to
  \<open>Kitchen\<close> holds the mapping in \<open>mapped_names\<close>, and resolving the name of
  the device with that address raises \<open>AttributeError\<close>: \<open>get_mappings\<close> returns
  \<open>None\<close> once \<open>default_mapped_names\<close> is off and never reads
  \<open>mapped_names\<close>.
\<close>

theorem resolve_mapped_name_override_raises:
  "mapped_names
     (HomeMaticLegacyCollector_init [] Map.empty ''ccu''
        (Some \<lparr>device_mapping = Some [''ABC0001:1'' \<mapsto> ''Kitchen''],
               config_supported_device_types = None,
               config_channels_with_errors_allowed = None\<rparr>)) ''ABC0001:1'' = Some ''Kitchen'' \<and>
   resolve_mapped_name
     (HomeMaticLegacyCollector_init [] Map.empty ''ccu''
        (Some \<lparr>device_mapping = Some [''ABC0001:1'' \<mapsto> ''Kitchen''],
               config_supported_device_types = None,
               config_channels_with_errors_allowed = None\<rparr>))
     \<lparr>devices = Inr [], paramset = (\<lambda>a. Inr Map.empty), paramset_description = (\<lambda>a. Inr []),
      device_names = Inr []\<rparr>
     \<lparr>address = ''ABC0001:1'', type = ''SWITCH'', parent = ''ABC0001'',
      parent_type = ''HmIP-PS'', children = [], paramsets = [''VALUES''],
      default_device = False\<rparr> = Inl AttributeError"
  by (simp add: resolve_mapped_name_def get_mappings_def HomeMaticLegacyCollector_init_def)

subsection \<open>Loops\<close>

lemma for_each_append:
  "for_each body (xs @ ys) s =
     (case for_each body xs s of Inl e \<Rightarrow> Inl e | Inr s' \<Rightarrow> for_each body ys s')"
  by (induction xs arbitrary: s) (simp_all split: sum.splits)

lemma for_each_invariant:
  assumes "\<And>x s s'. P s \<Longrightarrow> body x s = Inr s' \<Longrightarrow> P s'"
    and "P s" and "for_each body xs s = Inr s'"
  shows "P s'"
  using assms(2,3)
proof (induction xs arbitrary: s)
  case Nil
  then show ?case by simp
next
  case (Cons x xs)
  from Cons.prems(2) obtain s1 where b: "body x s = Inr s1" and r: "for_each body xs s1 = Inr s'"
    by (cases "body x s") simp_all
  from assms(1) [OF Cons.prems(1) b] have "P s1" .
  then show ?case using r by (rule Cons.IH)
qed

lemma for_each_extends:
  assumes "\<And>x s s'. body x s = Inr s' \<Longrightarrow> s' k = map_option (\<lambda>ss. ss @ g x) (s k)"
    and "for_each body xs s = Inr s'"
  shows "s' k = map_option (\<lambda>ss. ss @ concat (map g xs)) (s k)"
  using assms(2)
proof (induction xs arbitrary: s)
  case Nil
  then show ?case by (simp add: option.map_ident)
next
  case (Cons x xs)
  from Cons.prems obtain s1 where b: "body x s = Inr s1" and r: "for_each body xs s1 = Inr s'"
    by (cases "body x s") simp_all
  have "s' k = map_option (\<lambda>ss. ss @ concat (map g xs)) (s1 k)"
    using r by (rule Cons.IH)
  also have "s1 k = map_option (\<lambda>ss. ss @ g x) (s k)"
    using b by (rule assms(1))
  finally show ?case by (simp add: option.map_comp comp_def)
qed

lemma add_metric_present:
  "m g = Some ss \<Longrightarrow> add_metric g l v m = Inr (m(g \<mapsto> ss @ [(l, v)]))"
  by (simp add: add_metric_def)

lemma for_each_add_metric:
  "m g = Some ss \<Longrightarrow>
   for_each (\<lambda>x. add_metric g (L x) (V x)) xs m = Inr (m(g \<mapsto> ss @ map (\<lambda>x. (L x, V x)) xs))"
proof (induction xs arbitrary: m ss)
  case Nil
  then show ?case by (simp add: fun_upd_idem)
next
  case (Cons x xs)
  have step: "add_metric g (L x) (V x) m = Inr (m(g \<mapsto> ss @ [(L x, V x)]))"
    using Cons.prems by (rule add_metric_present)
  have "for_each (\<lambda>x. add_metric g (L x) (V x)) xs (m(g \<mapsto> ss @ [(L x, V x)])) =
        Inr ((m(g \<mapsto> ss @ [(L x, V x)]))(g \<mapsto> (ss @ [(L x, V x)]) @ map (\<lambda>x. (L x, V x)) xs))"
    by (rule Cons.IH) simp
  also have "\<dots> = Inr (m(g \<mapsto> ss @ map (\<lambda>x. (L x, V x)) (x # xs)))"
    by simp
  finally have rest: "for_each (\<lambda>x. add_metric g (L x) (V x)) xs (m(g \<mapsto> ss @ [(L x, V x)])) =
      Inr (m(g \<mapsto> ss @ map (\<lambda>x. (L x, V x)) (x # xs)))" .
  have "for_each (\<lambda>x. add_metric g (L x) (V x)) (x # xs) m =
        for_each (\<lambda>x. add_metric g (L x) (V x)) xs (m(g \<mapsto> ss @ [(L x, V x)]))"
    by (simp add: step)
  with rest show ?case by (simp only:)
qed

subsection \<open>The examples evaluated\<close>

lemma example_base_labels:
  "base_labels_of example_collector (example_ccu dps)
     \<lparr>device_name = ''Thermostat'',
      channels = [\<lparr>ise_id = 7, channel_name = ''Thermostat:1'', datapoints = dps\<rparr>]\<rparr>
     \<lparr>ise_id = 7, channel_name = ''Thermostat:1'', datapoints = dps\<rparr> = Inr example_labels"
  by (simp add: base_labels_of_def example_collector_def example_ccu_def example_labels_def
      get_device_address_of_device_def get_room_of_device_def get_function_of_device_def
      found_def)

lemma example_collect:
  "collect example_collector (example_ccu dps) =
     for_each (process_datapoint example_labels) dps metrics_init"
  by (simp add: collect_def process_state_device_def process_channel_def example_base_labels
      example_ccu_def [of dps, THEN arg_cong [where f = statelist]]
      split: sum.splits)

lemma example_resolve:
  "resolve_mapped_name example_legacy (example_rpc pset desc) example_plug = Inr ''Plug''"
  by (simp add: resolve_mapped_name_def get_mappings_def example_legacy_def example_rpc_def
      example_plug_def HomeMaticLegacyCollector_init_def)

lemma example_fields:
  "legacy_host example_legacy = ''ccu''" "address example_plug = ''ABC0001:1''"
  "type example_plug = ''SWITCH''" "parent_type example_plug = ''HmIP-PS''"
  by (simp_all add: example_legacy_def example_plug_def HomeMaticLegacyCollector_init_def)

lemma example_generate:
  "generate_metrics example_legacy (example_rpc pset desc) m =
     for_each (process_param example_legacy (example_rpc pset desc) example_plug pset) desc
       (m(''devicecount'' \<mapsto> [([''ccu''], 1)]))"
  by (simp add: generate_metrics_def process_device_def allow_failed_channel_def
      read_paramset_def example_legacy_def example_rpc_def example_plug_def
      HomeMaticLegacyCollector_init_def split: sum.splits)

lemma lower_STATE: "lower ''STATE'' = ''state''"
  by code_simp

lemma lower_examples:
  "lower ''LEVEL'' = ''level''" "lower ''POWER'' = ''power''" "lower ''VOLTAGE'' = ''voltage''"
  by code_simp+

lemma lower_Level: "lower ''Level'' = ''level''"
  by code_simp

lemma example_more_fields:
  "supported_device_types example_legacy = [''HmIP-PS'']"
  "channels_with_errors_allowed example_legacy = Map.empty"
  "paramsets example_plug = [''VALUES'']"
  "paramset (example_rpc pset desc) = (\<lambda>a. Inr pset)"
  "paramset_description (example_rpc pset desc) = (\<lambda>a. Inr desc)"
  "devices (example_rpc pset desc) = Inr [example_plug]"
  by (simp_all add: example_legacy_def example_plug_def example_rpc_def
      HomeMaticLegacyCollector_init_def)

lemma example_statelist:
  "statelist (example_ccu dps) =
     Inr [\<lparr>device_name = ''Thermostat'',
           channels = [\<lparr>ise_id = 7, channel_name = ''Thermostat:1'', datapoints = dps\<rparr>]\<rparr>]"
  "roomlist (example_ccu dps) = Inr [\<lparr>room_name = ''Kitchen'', room_channel = [7]\<rparr>]"
  "functionlist (example_ccu dps) =
     Inr [\<lparr>function_name = ''Heating'', function_channel = [7]\<rparr>]"
  "devicelist (example_ccu dps) =
     Inr [\<lparr>device_address = ''ABC0001'', device_type = ''HmIP-eTRV'', device_channel = [7]\<rparr>]"
  by (simp_all add: example_ccu_def)

subsection \<open>A pass of the state-listing collector\<close>

lemma process_datapoint_extends:
  assumes "process_datapoint base_labels dp m = Inr m'"
  shows "m' k = map_option (\<lambda>ss. ss @ kind_samples k base_labels [dp]) (m k)"
  using assms
  by (auto simp: process_datapoint_def kind_samples_def add_metric_def option.map_ident
      split: option.splits if_splits)

lemma kind_samples_concat:
  "concat (map (\<lambda>dp. kind_samples k b [dp]) dps) = kind_samples k b dps"
  by (induction dps) (simp_all add: kind_samples_def)

lemma process_channel_extends:
  assumes "process_channel self client device channel m = Inr m'"
  shows "m' k = map_option (\<lambda>ss. ss @ channel_samples k self client device channel) (m k)"
proof -
  from assms obtain b where b: "base_labels_of self client device channel = Inr b"
    and f: "for_each (process_datapoint b) (datapoints channel) m = Inr m'"
    by (auto simp: process_channel_def split: sum.splits)
  have "m' k = map_option (\<lambda>ss. ss @ concat (map (\<lambda>dp. kind_samples k b [dp]) (datapoints channel))) (m k)"
    by (rule for_each_extends [OF _ f]) (rule process_datapoint_extends)
  then show ?thesis by (simp add: channel_samples_def b kind_samples_concat)
qed

lemma process_state_device_extends:
  assumes "process_state_device self client device m = Inr m'"
  shows "m' k = map_option
           (\<lambda>ss. ss @ concat (map (channel_samples k self client device) (channels device))) (m k)"
  using assms unfolding process_state_device_def
  by (rule for_each_extends [rotated]) (rule process_channel_extends)

lemma metrics_init_keys:
  "metrics_init k = (if k \<in> set metric_keys then Some [] else None)"
  by (simp add: metrics_init_def metric_keys_def)

lemma collect_families:
  assumes "statelist client = Inr states" and "collect self client = Inr m"
  shows "m k = (if k \<in> set metric_keys then Some (pass_samples k self client states) else None)"
proof -
  have f: "for_each (process_state_device self client) states metrics_init = Inr m"
    using assms by (simp add: collect_def)
  have "m k = map_option (\<lambda>ss. ss @ pass_samples k self client states) (metrics_init k)"
    unfolding pass_samples_def
    by (rule for_each_extends [OF _ f]) (rule process_state_device_extends)
  then show ?thesis by (simp add: metrics_init_keys)
qed

subsection \<open>A pass of the parameter-set collector\<close>

lemma for_each_samples:
  assumes "\<And>x s s'. body x s = Inr s' \<Longrightarrow> samples_of s' k = samples_of s k @ g x"
    and "for_each body xs s = Inr s'"
  shows "samples_of s' k = samples_of s k @ concat (map g xs)"
  using assms(2)
proof (induction xs arbitrary: s)
  case Nil
  then show ?case by simp
next
  case (Cons x xs)
  from Cons.prems obtain s1 where b: "body x s = Inr s1" and r: "for_each body xs s1 = Inr s'"
    by (cases "body x s") simp_all
  have "samples_of s' k = samples_of s1 k @ concat (map g xs)"
    using r by (rule Cons.IH)
  also have "samples_of s1 k = samples_of s k @ g x"
    using b by (rule assms(1))
  finally show ?case by simp
qed

lemma add_metric_samples:
  assumes "add_metric g labels v m = Inr m'"
  shows "samples_of m' k = samples_of m k @ (if k = g then [(labels, v)] else [])"
  using assms
  by (auto simp: add_metric_def samples_of_def split: option.splits)

lemma ensure_family_samples:
  "samples_of (ensure_family g m) k = samples_of m k"
  by (simp add: ensure_family_def samples_of_def)

lemma concat_map_if:
  "concat (map (\<lambda>x. if c then [f x] else []) xs) = (if c then map f xs else [])"
  by (induction xs) simp_all

lemma process_single_value_samples:
  assumes "process_single_value self client device paramType key v m = Inr m'"
  shows "samples_of m' k = samples_of m k @ single_value_samples self client device key v k"
proof (cases "v = RStr [] \<or> v = RNone")
  case True
  with assms show ?thesis
    by (auto simp: process_single_value_def single_value_samples_def)
next
  case False
  with assms obtain name x where n: "resolve_mapped_name self client device = Inr name"
    and x: "py_float v = Inr x"
    and a: "add_metric (lower key)
              [legacy_host self, address device, type device, parent_type device, name] x
              (ensure_family (lower key) m) = Inr m'"
    by (auto simp: process_single_value_def Let_def split: sum.splits)
  from add_metric_samples [OF a, of k] False show ?thesis
    by (simp add: ensure_family_samples single_value_samples_def n x)
qed

lemma process_enum_samples:
  assumes "process_enum self client device key v istates m = Inr m'"
  shows "samples_of m' k = samples_of m k @ enum_samples self client device key v istates k"
proof (cases "v = RStr [] \<or> v = RNone")
  case True
  with assms show ?thesis
    by (auto simp: process_enum_def enum_samples_def)
next
  case False
  let ?g = "lower key @ ''_set''"
  from assms False obtain name i states state where
    n: "resolve_mapped_name self client device = Inr name" and i: "py_int v = Inr i"
    and s: "istates = Some states" and st: "subscript states i = Inr state"
    and f: "for_each
              (\<lambda>istate. add_metric ?g
                 [legacy_host self, address device, type device, parent_type device, name,
                  istate]
                 (if state = istate then 1 else 0))
              states (ensure_family ?g m) = Inr m'"
    by (auto simp: process_enum_def Let_def split: sum.splits option.splits)
  have "samples_of m' k = samples_of (ensure_family ?g m) k @
          concat (map (\<lambda>istate. if k = ?g
                    then [([legacy_host self, address device, type device, parent_type device,
                            name, istate], if state = istate then 1 else 0)]
                    else []) states)"
    by (rule for_each_samples [OF _ f]) (rule add_metric_samples)
  with False show ?thesis
    by (simp add: ensure_family_samples enum_samples_def n i s st concat_map_if)
qed

lemma process_param_samples:
  assumes "process_param self client device pset item m = Inr m'"
  shows "samples_of m' k = samples_of m k @ param_samples self client device pset k item"
  using assms
  by (auto simp: process_param_def param_samples_def Let_def
      process_single_value_samples process_enum_samples split: option.splits if_splits)

lemma process_device_samples:
  assumes "process_device self client device m = Inr m'"
  shows "samples_of m' k = samples_of m k @ device_samples self client k device"
proof (cases "parent_type device \<in> set (supported_device_types self) \<and>
              ''VALUES'' \<in> set (paramsets device)")
  case False
  with assms show ?thesis
    by (auto simp: process_device_def device_samples_def split: if_splits sum.splits)
next
  case True
  with assms obtain allow pset desc where
    a: "allow_failed_channel self device = Inr allow"
    and p: "read_paramset client device allow = Inr pset"
    and d: "paramset_description client (address device) = Inr desc"
    and f: "for_each (process_param self client device pset) desc m = Inr m'"
    by (auto simp: process_device_def split: sum.splits)
  have "samples_of m' k =
          samples_of m k @ concat (map (param_samples self client device pset k) desc)"
    by (rule for_each_samples [OF _ f]) (rule process_param_samples)
  with True show ?thesis by (simp add: device_samples_def a p d)
qed

lemma generate_metrics_samples:
  assumes "devices client = Inr devs" and "generate_metrics self client m0 = Inr m"
  shows "samples_of m k =
           (if k = ''devicecount'' then [([legacy_host self], real (length devs))]
            else samples_of m0 k) @ legacy_pass_samples k self client devs"
proof -
  let ?m1 = "m0(''devicecount'' \<mapsto> [([legacy_host self], real (length devs))])"
  have f: "for_each (process_device self client) devs ?m1 = Inr m"
    using assms by (simp add: generate_metrics_def)
  have "samples_of m k = samples_of ?m1 k @ concat (map (device_samples self client k) devs)"
    by (rule for_each_samples [OF _ f]) (rule process_device_samples)
  then show ?thesis by (simp add: legacy_pass_samples_def samples_of_def)
qed

lemma two_levels_samples:
  "legacy_pass_samples ''level'' example_legacy (example_rpc (fst two_levels) (snd two_levels))
     [example_plug] = [(plug_labels, 1 / 2), (plug_labels, 3 / 4)]"
  by (simp add: legacy_pass_samples_def device_samples_def allow_failed_channel_def
      read_paramset_def param_samples_def single_value_samples_def two_levels_def
      float_desc_def example_resolve lower_examples lower_Level plug_labels_def example_fields
      example_more_fields Let_def)

text \<open>
  C1, as amended. No pass deduplicates: every observation is appended to its family,
  none is merged with or replaced by another. A pass of the state-listing collector that
  completes holds, in each of its nine families, exactly one observation for every
  reading classified into the family, in the order of the snapshot. A pass of the
  parameter-set collector that completes holds, in each family, what the family held
  when the pass began (for \<open>devicecount\<close>, the one count of the devices instead),
  followed in the order of the snapshot by one observation for every non-empty
  \<open>FLOAT\<close>, \<open>INTEGER\<close> or \<open>BOOL\<close> parameter whose lower-cased key names the
  family, and by one observation per declared state for every non-empty \<open>ENUM\<close>
  parameter whose lower-cased key with \<open>_set\<close> names it. So two readings with the same
  kind and the same labels give two observations, the earlier one first.
\<close>

theorem collect_appends_every_reading:
  "(statelist client = Inr states \<and> collect self client = Inr m \<longrightarrow>
      m k = (if k \<in> set metric_keys then Some (pass_samples k self client states) else None)) \<and>
   (devices lclient = Inr devs \<and> generate_metrics lself lclient lm = Inr lm' \<longrightarrow>
      samples_of lm' k =
        (if k = ''devicecount'' then [([legacy_host lself], real (length devs))]
         else samples_of lm k) @ legacy_pass_samples k lself lclient devs)"
  using collect_families [of client states self m k]
    generate_metrics_samples [of lclient devs lself lm lm' k]
  by blast

text \<open>
  The theorem at a channel that reports \<open>TEMPERATURE\<close> and
  \<open>ACTUAL_TEMPERATURE\<close>, whose temperature family is both observations, and at a
  parameter set with the keys \<open>LEVEL\<close> and \<open>Level\<close>, whose family \<open>level\<close> is
  both observations.
\<close>

theorem collect_appends_every_reading_witness:
  "(case collect example_collector (example_ccu two_temperatures) of
      Inl e \<Rightarrow> None
    | Inr m \<Rightarrow> m ''temperature'') =
     Some (pass_samples ''temperature'' example_collector (example_ccu two_temperatures)
             [\<lparr>device_name = ''Thermostat'',
               channels = [\<lparr>ise_id = 7, channel_name = ''Thermostat:1'',
                            datapoints = two_temperatures\<rparr>]\<rparr>]) \<and>
   pass_samples ''temperature'' example_collector (example_ccu two_temperatures)
     [\<lparr>device_name = ''Thermostat'',
       channels = [\<lparr>ise_id = 7, channel_name = ''Thermostat:1'',
                    datapoints = two_temperatures\<rparr>]\<rparr>] =
     [(example_labels, 20), (example_labels, 21)] \<and>
   (case generate_metrics example_legacy (example_rpc (fst two_levels) (snd two_levels))
           Map.empty of
      Inl e \<Rightarrow> []
    | Inr m \<Rightarrow> samples_of m ''level'') =
     legacy_pass_samples ''level'' example_legacy
       (example_rpc (fst two_levels) (snd two_levels)) [example_plug] \<and>
   legacy_pass_samples ''level'' example_legacy
     (example_rpc (fst two_levels) (snd two_levels)) [example_plug] =
     [(plug_labels, 1 / 2), (plug_labels, 3 / 4)]"
proof -
  let ?states = "[\<lparr>device_name = ''Thermostat'',
                   channels = [\<lparr>ise_id = 7, channel_name = ''Thermostat:1'',
                                datapoints = two_temperatures\<rparr>]\<rparr>]"
  let ?rpc = "example_rpc (fst two_levels) (snd two_levels)"
  obtain m where m: "collect example_collector (example_ccu two_temperatures) = Inr m"
    by (simp add: example_collect two_temperatures_def process_datapoint_def
        datapoint_metric_def add_metric_def metrics_init_keys metric_keys_def)
  obtain lm where lm: "generate_metrics example_legacy ?rpc Map.empty = Inr lm"
    by (simp add: example_generate two_levels_def process_param_def float_desc_def
        process_single_value_def example_resolve Let_def lower_examples lower_Level
        ensure_family_def add_metric_def)
  have s: "statelist (example_ccu two_temperatures) = Inr ?states"
    by (simp add: example_ccu_def)
  have d: "devices ?rpc = Inr [example_plug]"
    by (simp add: example_more_fields)
  have p: "pass_samples ''temperature'' example_collector (example_ccu two_temperatures) ?states =
     [(example_labels, 20), (example_labels, 21)]"
    by (simp add: pass_samples_def channel_samples_def example_base_labels kind_samples_def
        two_temperatures_def datapoint_metric_def)
  show ?thesis
    using
      collect_appends_every_reading
        [where client = "example_ccu two_temperatures" and states = ?states
           and self = example_collector and m = m and k = "''temperature''"
           and lclient = ?rpc and devs = "[example_plug]" and lself = example_legacy
           and lm = Map.empty and lm' = lm]
      collect_appends_every_reading
        [where client = "example_ccu two_temperatures" and states = ?states
           and self = example_collector and m = m and k = "''level''"
           and lclient = ?rpc and devs = "[example_plug]" and lself = example_legacy
           and lm = Map.empty and lm' = lm]
    by (simp add: m lm s d p two_levels_samples metric_keys_def samples_of_def)
qed

text \<open>
  C1 as stated fails: the two readings of the channel have the same kind and the same
  labels, and the batch holds both observations, the earlier one first.
\<close>

theorem no_dedup_counterexample:
  "(case collect example_collector (example_ccu two_temperatures) of
      Inl e \<Rightarrow> None
    | Inr m \<Rightarrow> m ''temperature'') = Some [(example_labels, 20), (example_labels, 21)]"
  by (simp add: example_collect two_temperatures_def process_datapoint_def
      datapoint_metric_def add_metric_def metrics_init_keys metric_keys_def)

subsection \<open>Enumerated values\<close>

text \<open>
  C6, as amended. For an enumerated reading whose value is neither empty nor absent and
  converts to an integer that indexes the declared state list (from the end when below
  zero), and for which the name resolution succeeds, processing appends to the family of
  the key exactly one observation per declared state, in the order of the list, each with
  the state as a further label, with value 1 for every state equal to the state at the
  index and 0 for every other state; no other family changes.
\<close>

theorem process_enum_one_hot:
  assumes "v \<noteq> RStr []" and "v \<noteq> RNone"
    and "resolve_mapped_name self client device = Inr name"
    and "py_int v = Inr i" and "subscript states i = Inr state"
  shows "process_enum self client device key v (Some states) m =
     Inr (m(lower key @ ''_set'' \<mapsto>
            (case m (lower key @ ''_set'') of None \<Rightarrow> [] | Some ss \<Rightarrow> ss) @
            map (\<lambda>istate. ([legacy_host self, address device, type device, parent_type device,
                            name, istate], if state = istate then 1 else 0)) states))"
proof -
  let ?g = "lower key @ ''_set''"
  let ?ss = "case m ?g of None \<Rightarrow> [] | Some ss \<Rightarrow> ss"
  have e: "ensure_family ?g m ?g = Some ?ss"
    by (simp add: ensure_family_def split: option.splits)
  have u: "(ensure_family ?g m)(?g \<mapsto> x) = m(?g \<mapsto> x)" for x
    by (simp add: ensure_family_def)
  show ?thesis
    using assms
      for_each_add_metric
        [of "ensure_family ?g m" ?g ?ss
            "\<lambda>istate. [legacy_host self, address device, type device, parent_type device,
                         name, istate]"
            "\<lambda>istate. if state = istate then 1 else 0" states, OF e]
    by (simp add: process_enum_def u Let_def)
qed

text \<open>The theorem at the states \<open>OPEN\<close>, \<open>CLOSED\<close> and the value 1.\<close>

theorem process_enum_one_hot_witness:
  "process_enum example_legacy (example_rpc Map.empty []) example_plug ''STATE'' (RInt 1)
     (Some [''OPEN'', ''CLOSED'']) Map.empty =
   Inr [''state_set'' \<mapsto> [(plug_labels @ [''OPEN''], 0), (plug_labels @ [''CLOSED''], 1)]]"
proof -
  have i: "py_int (RInt 1) = Inr 1" by simp
  have s: "subscript [''OPEN'', ''CLOSED''] 1 = Inr ''CLOSED''"
    by (simp add: subscript_def)
  show ?thesis
    using process_enum_one_hot [OF _ _ example_resolve i s, of Map.empty "[]" "''STATE''" Map.empty]
    by (simp add: lower_STATE plug_labels_def example_legacy_def example_plug_def
        HomeMaticLegacyCollector_init_def)
qed

text \<open>
  C6 as stated fails: with the state list \<open>OPEN\<close>, \<open>CLOSED\<close>, the value
  \<open>CLOSED\<close> of the specification's scenario raises \<open>ValueError\<close> in
  \<open>int(value)\<close>, and the value 2 raises \<open>IndexError\<close>; no observation is
  produced.
\<close>

theorem process_enum_counterexample:
  "process_enum example_legacy (example_rpc Map.empty []) example_plug ''STATE''
     (RStr ''CLOSED'') (Some [''OPEN'', ''CLOSED'']) Map.empty = Inl ValueError \<and>
   process_enum example_legacy (example_rpc Map.empty []) example_plug ''STATE''
     (RInt 2) (Some [''OPEN'', ''CLOSED'']) Map.empty = Inl IndexError"
  by (simp add: process_enum_def example_resolve Let_def subscript_def int_of_str_def
      strip_def is_space_def split_sign_def digit_of_def)

subsection \<open>Empty values\<close>

lemma other_value_zero:
  assumes "dp_value dp = Other s"
  shows "datapoint_metric base_labels dp =
           map_option (\<lambda>(k, labels, x). (k, labels, 0))
             (datapoint_metric base_labels (dp\<lparr>dp_value := Number 1\<rparr>))"
  using assms
  by (cases "dp_type dp"; cases "valueunit dp") (simp_all add: datapoint_metric_def)

lemma datapoint_metric_key:
  assumes "datapoint_metric base_labels dp = Some (k, labels, x)"
  shows "k \<in> set metric_keys"
  using assms
  by (cases "dp_type dp"; cases "valueunit dp")
     (auto simp: datapoint_metric_def metric_keys_def)

lemma for_each_total:
  assumes "\<And>x s. P s \<Longrightarrow> \<exists>s'. body x s = Inr s' \<and> P s'" and "P s"
  shows "\<exists>s'. for_each body xs s = Inr s' \<and> P s'"
  using assms(2)
proof (induction xs arbitrary: s)
  case Nil
  then show ?case by simp
next
  case (Cons x xs)
  from assms(1) [OF Cons.prems] obtain s1 where b: "body x s = Inr s1" and p: "P s1"
    by blast
  from Cons.IH [OF p] show ?case by (simp add: b)
qed

lemma process_datapoint_total:
  assumes "\<forall>k\<in>set metric_keys. m k \<noteq> None"
  shows "\<exists>m'. process_datapoint base_labels dp m = Inr m' \<and> (\<forall>k\<in>set metric_keys. m' k \<noteq> None)"
proof (cases "datapoint_metric base_labels dp")
  case None
  with assms show ?thesis by (simp add: process_datapoint_def)
next
  case (Some r)
  then obtain k labels x where r: "datapoint_metric base_labels dp = Some (k, labels, x)"
    by (cases r) auto
  from datapoint_metric_key [OF r] assms obtain ss where "m k = Some ss" by auto
  with assms show ?thesis
    by (auto simp: process_datapoint_def r add_metric_def)
qed

lemma base_labels_of_total:
  assumes "roomlist client = Inr rooms" and "functionlist client = Inr functions"
    and "devicelist client = Inr devs"
  shows "\<exists>labels. base_labels_of self client device channel = Inr labels"
  using assms
  by (simp add: base_labels_of_def get_device_address_of_device_def get_room_of_device_def
      get_function_of_device_def Let_def)

lemma collect_completes:
  assumes "statelist client = Inr states" and "roomlist client = Inr rooms"
    and "functionlist client = Inr functions" and "devicelist client = Inr devs"
  shows "\<exists>m. collect self client = Inr m"
proof -
  let ?P = "\<lambda>m :: metrics. \<forall>k\<in>set metric_keys. m k \<noteq> None"
  have ch: "\<exists>m'. process_channel self client device channel m = Inr m' \<and> ?P m'"
    if "?P m" for device channel m
  proof -
    from base_labels_of_total [OF assms(2-4)] obtain labels where
      l: "base_labels_of self client device channel = Inr labels" by blast
    have "\<exists>m'. for_each (process_datapoint labels) (datapoints channel) m = Inr m' \<and> ?P m'"
    proof (rule for_each_total [where P = ?P])
      show "\<exists>s'. process_datapoint labels x s = Inr s' \<and> ?P s'" if "?P s" for x s
        using that by (rule process_datapoint_total)
      show "?P m" by fact
    qed
    then show ?thesis by (simp add: process_channel_def l)
  qed
  have dv: "\<exists>m'. process_state_device self client device m = Inr m' \<and> ?P m'"
    if "?P m" for device m
    unfolding process_state_device_def
  proof (rule for_each_total [where P = ?P])
    show "\<exists>s'. process_channel self client device x s = Inr s' \<and> ?P s'" if "?P s" for x s
      using that by (rule ch)
    show "?P m" by fact
  qed
  have "\<exists>m'. for_each (process_state_device self client) states metrics_init = Inr m' \<and> ?P m'"
  proof (rule for_each_total [where P = ?P])
    show "\<exists>s'. process_state_device self client x s = Inr s' \<and> ?P s'" if "?P s" for x s
      using that by (rule dv)
    show "?P metrics_init" by (simp add: metrics_init_keys)
  qed
  then show ?thesis by (auto simp: collect_def assms(1))
qed

text \<open>
  C7, as amended. In the parameter-set collector, for a reading whose value is empty or
  absent, \<open>process_single_value\<close> and \<open>process_enum\<close> return without an
  observation and without an exception, and the loop over the parameters goes on as if
  the reading were not there: the pass over the parameters with the reading equals the
  pass over the parameters without it. In the state-listing collector such a reading is
  not skipped: \<open>floatify\<close> makes 0.0 of every value that is neither a number nor a
  boolean, the empty string included, so the reading is observed wherever a reading of
  its type and unit is, with the value 0. It does not abort the pass either: a pass of
  \<open>collect\<close> whose four listings are available always completes.
\<close>

theorem empty_value_skipped:
  "((v = RNone \<or> v = RStr []) \<and> (pset key = None \<or> pset key = Some v) \<longrightarrow>
      process_single_value self client device paramType key v m = Inr m \<and>
      process_enum self client device key v istates m = Inr m \<and>
      for_each (process_param self client device pset) (before @ (key, paramDesc) # after) m =
        for_each (process_param self client device pset) (before @ after) m) \<and>
   (dp_value dp = Other s \<longrightarrow>
      datapoint_metric base_labels dp =
        map_option (\<lambda>(k, labels, x). (k, labels, 0))
          (datapoint_metric base_labels (dp\<lparr>dp_value := Number 1\<rparr>))) \<and>
   (statelist xclient = Inr states \<and> roomlist xclient = Inr rooms \<and>
    functionlist xclient = Inr funcs \<and> devicelist xclient = Inr devs \<longrightarrow>
      (\<exists>xm. collect xself xclient = Inr xm))"
proof -
  have legacy: "(v = RNone \<or> v = RStr []) \<and> (pset key = None \<or> pset key = Some v) \<longrightarrow>
      process_single_value self client device paramType key v m = Inr m \<and>
      process_enum self client device key v istates m = Inr m \<and>
      for_each (process_param self client device pset) (before @ (key, paramDesc) # after) m =
        for_each (process_param self client device pset) (before @ after) m"
  proof (intro impI, elim conjE)
    assume e: "v = RNone \<or> v = RStr []" and a: "pset key = None \<or> pset key = Some v"
    have sv: "process_single_value self client device t key v s = Inr s" for t s
      using e by (auto simp: process_single_value_def)
    have en: "process_enum self client device key v ist s = Inr s" for ist s
      using e by (auto simp: process_enum_def)
    have sv0: "process_single_value self client device t key RNone s = Inr s" for t s
      by (simp add: process_single_value_def)
    have en0: "process_enum self client device key RNone ist s = Inr s" for ist s
      by (simp add: process_enum_def)
    have p: "process_param self client device pset (key, paramDesc) s = Inr s" for s
      using a by (auto simp: process_param_def sv en sv0 en0 split: option.splits)
    have "for_each (process_param self client device pset) (before @ (key, paramDesc) # after) m =
             for_each (process_param self client device pset) (before @ after) m"
      by (simp add: for_each_append p split: sum.splits)
    then show "process_single_value self client device paramType key v m = Inr m \<and>
      process_enum self client device key v istates m = Inr m \<and>
      for_each (process_param self client device pset) (before @ (key, paramDesc) # after) m =
        for_each (process_param self client device pset) (before @ after) m"
      by (simp add: sv en)
  qed
  have zero: "dp_value dp = Other s \<longrightarrow>
      datapoint_metric base_labels dp =
        map_option (\<lambda>(k, labels, x). (k, labels, 0))
          (datapoint_metric base_labels (dp\<lparr>dp_value := Number 1\<rparr>))"
    using other_value_zero [of dp s base_labels] by blast
  have total: "statelist xclient = Inr states \<and> roomlist xclient = Inr rooms \<and>
    functionlist xclient = Inr funcs \<and> devicelist xclient = Inr devs \<longrightarrow>
      (\<exists>xm. collect xself xclient = Inr xm)"
    using collect_completes by blast
  from legacy zero total show ?thesis by (intro conjI)
qed

text \<open>
  The theorem at three parameters of which the second has the empty string as value: the
  first and the third are observed. And at a \<open>TEMPERATURE\<close> datapoint of the
  state-listing collector whose value is the empty string: the pass completes and holds
  a temperature of 0 for it.
\<close>

theorem empty_value_skipped_witness:
  "for_each
     (process_param example_legacy
        (example_rpc [''LEVEL'' \<mapsto> RFloat (1 / 2), ''POWER'' \<mapsto> RStr [], ''VOLTAGE'' \<mapsto> RInt 230] [])
        example_plug [''LEVEL'' \<mapsto> RFloat (1 / 2), ''POWER'' \<mapsto> RStr [], ''VOLTAGE'' \<mapsto> RInt 230])
     [(''LEVEL'', float_desc), (''POWER'', float_desc), (''VOLTAGE'', float_desc)] Map.empty =
   Inr [''level'' \<mapsto> [(plug_labels, 1 / 2)], ''voltage'' \<mapsto> [(plug_labels, 230)]] \<and>
   datapoint_metric example_labels empty_temperature = Some (''temperature'', example_labels, 0) \<and>
   collect example_collector (example_ccu [empty_temperature]) =
     Inr (metrics_init(''temperature'' \<mapsto> [(example_labels, 0)]))"
proof -
  let ?pset = "[''LEVEL'' \<mapsto> RFloat (1 / 2), ''POWER'' \<mapsto> RStr [], ''VOLTAGE'' \<mapsto> RInt 230]"
  have l: "for_each (process_param example_legacy (example_rpc ?pset []) example_plug ?pset)
          [(''LEVEL'', float_desc), (''VOLTAGE'', float_desc)] Map.empty =
        Inr [''level'' \<mapsto> [(plug_labels, 1 / 2)], ''voltage'' \<mapsto> [(plug_labels, 230)]]"
    by (simp add: process_param_def float_desc_def process_single_value_def example_resolve
        Let_def lower_examples ensure_family_def add_metric_def plug_labels_def
        example_fields)
  have c: "collect example_collector (example_ccu [empty_temperature]) =
     Inr (metrics_init(''temperature'' \<mapsto> [(example_labels, 0)]))"
    by (simp add: example_collect empty_temperature_def process_datapoint_def
        datapoint_metric_def add_metric_def metrics_init_keys metric_keys_def)
  have v: "dp_value empty_temperature = Other []"
    by (simp add: empty_temperature_def)
  have n: "datapoint_metric example_labels (empty_temperature\<lparr>dp_value := Number 1\<rparr>) =
             Some (''temperature'', example_labels, 1)"
    by (simp add: empty_temperature_def datapoint_metric_def)
  from l show ?thesis
    using empty_value_skipped
      [where v = "RStr []" and pset = ?pset and key = "''POWER''" and self = example_legacy
         and client = "example_rpc ?pset []" and device = example_plug
         and paramType = "''FLOAT''" and m = Map.empty and istates = None
         and before = "[(''LEVEL'', float_desc)]" and paramDesc = float_desc
         and after = "[(''VOLTAGE'', float_desc)]" and dp = empty_temperature and s = "[]"
         and base_labels = example_labels and xclient = "example_ccu [empty_temperature]"
         and states = "[\<lparr>device_name = ''Thermostat'',
                          channels = [\<lparr>ise_id = 7, channel_name = ''Thermostat:1'',
                                       datapoints = [empty_temperature]\<rparr>]\<rparr>]"
         and rooms = "[\<lparr>room_name = ''Kitchen'', room_channel = [7]\<rparr>]"
         and funcs = "[\<lparr>function_name = ''Heating'', function_channel = [7]\<rparr>]"
         and devs = "[\<lparr>device_address = ''ABC0001'', device_type = ''HmIP-eTRV'',
                        device_channel = [7]\<rparr>]"
         and xself = example_collector]
    by (simp add: c v n example_statelist)
qed

text \<open>
  C7 as stated fails for a value that is not a number: \<open>float("abc")\<close> raises
  \<open>ValueError\<close>, nothing catches it, and the pass ends with the exception before the
  next parameter is read.
\<close>

theorem non_numeric_aborts_counterexample:
  "generate_metrics example_legacy
     (example_rpc [''POWER'' \<mapsto> RStr ''abc'', ''VOLTAGE'' \<mapsto> RInt 230]
        [(''POWER'', float_desc), (''VOLTAGE'', float_desc)]) Map.empty = Inl ValueError"
  by (simp add: example_generate process_param_def float_desc_def process_single_value_def
      example_resolve Let_def float_of_str_def strip_def is_space_def split_sign_def
      digit_of_def)

subsection \<open>The device count\<close>

lemma add_metric_keeps_first:
  "add_metric g l v m = Inr m' \<Longrightarrow> \<exists>r. m k = Some (s # r) \<Longrightarrow> \<exists>r. m' k = Some (s # r)"
  by (auto simp: add_metric_def split: option.splits)

lemma ensure_family_keeps_first:
  "\<exists>r. m k = Some (s # r) \<Longrightarrow> \<exists>r. ensure_family g m k = Some (s # r)"
  by (auto simp: ensure_family_def)

lemma process_single_value_keeps_first:
  assumes "process_single_value self client device t key v m = Inr m'"
    and "\<exists>r. m k = Some (s # r)"
  shows "\<exists>r. m' k = Some (s # r)"
proof (cases "v = RStr [] \<or> v = RNone")
  case True
  with assms show ?thesis by (auto simp: process_single_value_def)
next
  case False
  from assms(2) have e: "\<exists>r. ensure_family (lower key) m k = Some (s # r)"
    by (rule ensure_family_keeps_first)
  from assms(1) False obtain l x where
    "add_metric (lower key) l x (ensure_family (lower key) m) = Inr m'"
    by (auto simp: process_single_value_def Let_def split: sum.splits)
  then show ?thesis using e by (rule add_metric_keeps_first)
qed

lemma process_enum_keeps_first:
  assumes "process_enum self client device key v istates m = Inr m'"
    and "\<exists>r. m k = Some (s # r)"
  shows "\<exists>r. m' k = Some (s # r)"
proof (cases "v = RStr [] \<or> v = RNone")
  case True
  with assms show ?thesis by (auto simp: process_enum_def)
next
  case False
  let ?g = "lower key @ ''_set''"
  from assms(2) have e: "\<exists>r. ensure_family ?g m k = Some (s # r)"
    by (rule ensure_family_keeps_first)
  from assms(1) False obtain name state :: string and xs where
    f: "for_each
          (\<lambda>istate. add_metric ?g
             [legacy_host self, address device, type device, parent_type device, name, istate]
             (if state = istate then 1 else 0))
          xs (ensure_family ?g m) = Inr m'"
    by (auto simp: process_enum_def Let_def split: sum.splits option.splits)
  show ?thesis
    by (rule for_each_invariant [where P = "\<lambda>m. \<exists>r. m k = Some (s # r)", OF _ e f])
       (rule add_metric_keeps_first)
qed

lemma process_param_keeps_first:
  assumes "process_param self client device pset item m = Inr m'"
    and "\<exists>r. m k = Some (s # r)"
  shows "\<exists>r. m' k = Some (s # r)"
  using assms
  by (auto simp: process_param_def Let_def split: option.splits if_splits
      dest: process_single_value_keeps_first process_enum_keeps_first)

lemma process_device_keeps_first:
  assumes "process_device self client device m = Inr m'"
    and "\<exists>r. m k = Some (s # r)"
  shows "\<exists>r. m' k = Some (s # r)"
proof (cases "\<exists>pset desc. for_each (process_param self client device pset) desc m = Inr m'")
  case True
  then obtain pset desc where
    f: "for_each (process_param self client device pset) desc m = Inr m'" by blast
  show ?thesis
    by (rule for_each_invariant [where P = "\<lambda>m. \<exists>r. m k = Some (s # r)", OF _ assms(2) f])
       (rule process_param_keeps_first)
next
  case False
  with assms(1) have "m' = m"
    by (auto simp: process_device_def split: if_splits sum.splits)
  with assms(2) show ?thesis by simp
qed

lemma generate_metrics_devicecount:
  assumes "devices client = Inr devs" and "generate_metrics self client m0 = Inr m"
  shows "\<exists>rest. m ''devicecount'' = Some (([legacy_host self], real (length devs)) # rest)"
proof -
  let ?m1 = "m0(''devicecount'' \<mapsto> [([legacy_host self], real (length devs))])"
  have f: "for_each (process_device self client) devs ?m1 = Inr m"
    using assms by (simp add: generate_metrics_def)
  have s: "\<exists>r. ?m1 ''devicecount'' = Some (([legacy_host self], real (length devs)) # r)"
    by simp
  show ?thesis
    by (rule for_each_invariant
          [where P = "\<lambda>m. \<exists>r. m ''devicecount'' = Some (([legacy_host self], real (length devs)) # r)",
           OF _ s f])
       (rule process_device_keeps_first)
qed

lemma collect_no_devicecount:
  assumes "collect self client = Inr m"
  shows "m ''devicecount'' = None"
proof -
  from assms obtain states where "statelist client = Inr states"
    by (auto simp: collect_def split: sum.splits)
  from collect_families [OF this assms, of "''devicecount''"]
  show ?thesis by (simp add: metric_keys_def)
qed

text \<open>
  C8, as amended. A pass of the parameter-set collector that completes holds the family
  \<open>devicecount\<close>, whose first observation is the number of devices of the snapshot,
  labelled with the host. A pass of the state-listing collector holds no family
  \<open>devicecount\<close>.
\<close>

theorem device_count_legacy_only:
  "(devices lclient = Inr devs \<and> generate_metrics lself lclient m0 = Inr m \<longrightarrow>
      (\<exists>rest. m ''devicecount'' = Some (([legacy_host lself], real (length devs)) # rest))) \<and>
   (collect self client = Inr xm \<longrightarrow> xm ''devicecount'' = None)"
  using generate_metrics_devicecount [of lclient devs lself m0 m]
    collect_no_devicecount [of self client xm]
  by blast

text \<open>The theorem at the two example controllers, each with one device.\<close>

theorem device_count_legacy_only_witness:
  "(case generate_metrics example_legacy (example_rpc Map.empty []) Map.empty of
      Inl e \<Rightarrow> None
    | Inr m \<Rightarrow> m ''devicecount'') = Some [([''ccu''], 1)] \<and>
   (case collect example_collector (example_ccu []) of
      Inl e \<Rightarrow> Some []
    | Inr m \<Rightarrow> m ''devicecount'') = None"
proof -
  have d: "devices (example_rpc Map.empty []) = Inr [example_plug]"
    by (simp add: example_rpc_def)
  have g: "generate_metrics example_legacy (example_rpc Map.empty []) Map.empty =
             Inr [''devicecount'' \<mapsto> [([''ccu''], 1)]]"
    by (simp add: example_generate)
  have c: "collect example_collector (example_ccu []) = Inr metrics_init"
    by (simp add: example_collect)
  show ?thesis
    using device_count_legacy_only
      [of "example_rpc Map.empty []" "[example_plug]" example_legacy Map.empty
          "[''devicecount'' \<mapsto> [([''ccu''], 1)]]" example_collector "example_ccu []"
          metrics_init]
    by (simp add: d g c)
qed

text \<open>
  C8 as stated fails for the state-listing collector: the pass over a snapshot with one
  device ends with nine empty families, none of them \<open>devicecount\<close>.
\<close>

theorem state_listing_no_device_count_counterexample:
  "collect example_collector (example_ccu []) = Inr metrics_init \<and>
   metrics_init ''devicecount'' = None \<and>
   list_all (\<lambda>k. metrics_init k = Some []) metric_keys"
  by (simp add: example_collect metrics_init_keys metric_keys_def)

subsection \<open>The caches\<close>

lemma map_of_None_filter:
  "map_of es k = None \<Longrightarrow> filter (\<lambda>e. fst e \<noteq> k) (take n es) = take n es"
  by (auto simp: filter_id_conv map_of_eq_None_iff dest!: in_set_takeD)

lemma lru_cache_again:
  assumes "0 < n" and "lru_cache n f k c = (Inr v, c')"
  shows "lru_cache n g k c' = (Inr v, c')"
proof (cases "map_of (entries c) k")
  case None
  from assms(1) obtain n' where n: "n = Suc n'" by (cases n) simp_all
  from None assms(2) have c': "c' = c\<lparr>entries := (k, v) # take n' (entries c), calls := Suc (calls c)\<rparr>"
    by (auto simp: lru_cache_def n split: sum.splits)
  show ?thesis
    by (simp add: lru_cache_def c' map_of_None_filter [OF None])
next
  case (Some v0)
  with assms(2) have c': "c' = c\<lparr>entries := (k, v) # filter (\<lambda>e. fst e \<noteq> k) (entries c)\<rparr>"
    by (auto simp: lru_cache_def)
  show ?thesis
    by (simp add: lru_cache_def c')
qed

lemma lru_cache_miss:
  assumes "map_of (entries c) k = None"
  shows "fst (lru_cache n g k c) = g k \<and> calls (snd (lru_cache n g k c)) = Suc (calls c)"
  using assms by (simp add: lru_cache_def split: sum.splits)

lemma lru_cache_raises:
  assumes "map_of (entries c) k = None" and "g k = Inl e"
  shows "lru_cache n g k c = (Inl e, c\<lparr>calls := Suc (calls c)\<rparr>)"
  using assms by (simp add: lru_cache_def)

lemma window_advance:
  fixes t0 t1 :: real
  assumes "0 < ttl" and "t0 + of_int ttl \<le> t1"
  shows "\<lfloor>t0 / of_int ttl\<rfloor> < \<lfloor>t1 / of_int ttl\<rfloor>"
proof -
  have pos: "(0::real) < of_int ttl" using assms(1) by simp
  have "(t0 + of_int ttl) / of_int ttl \<le> t1 / of_int ttl"
    using assms(2) pos by (simp add: divide_right_mono)
  moreover have "(t0 + of_int ttl) / of_int ttl = t0 / of_int ttl + 1"
    using pos by (simp add: add_divide_distrib)
  ultimately have "t0 / of_int ttl + 1 \<le> t1 / of_int ttl" by simp
  then have "\<lfloor>t0 / of_int ttl + 1\<rfloor> \<le> \<lfloor>t1 / of_int ttl\<rfloor>"
    by (rule floor_mono)
  then show ?thesis by simp
qed

lemma window_mono:
  fixes t1 t2 :: real
  assumes "0 < ttl" and "t1 \<le> t2"
  shows "\<lfloor>t1 / of_int ttl\<rfloor> \<le> \<lfloor>t2 / of_int ttl\<rfloor>"
proof -
  have "(0::real) < of_int ttl" using assms(1) by simp
  then have "t1 / of_int ttl \<le> t2 / of_int ttl"
    using assms(2) by (simp add: divide_right_mono)
  then show ?thesis by (rule floor_mono)
qed

lemma earlier_windows_miss:
  fixes w :: int
  assumes "\<forall>e\<in>set es. fst (fst e) < w"
  shows "map_of es (w, a) = None"
  using assms by (force simp: map_of_eq_None_iff)

lemma lru_cache_windows:
  fixes w :: int
  assumes "\<forall>e\<in>set (entries c). fst (fst e) \<le> w" and "lru_cache n f (w, a) c = (r, c')"
  shows "\<forall>e\<in>set (entries c'). fst (fst e) \<le> w"
  using assms
  by (fastforce simp: lru_cache_def split: option.splits sum.splits dest!: in_set_takeD)

lemma ttl_lru_cache_again:
  assumes "0 < maxsize" and "ttl \<noteq> 0" and "ttl_lru_cache ttl maxsize f t0 a c0 = (Inr v, c1)"
    and "\<lfloor>t1 / of_int ttl\<rfloor> = \<lfloor>t0 / of_int ttl\<rfloor>"
  shows "ttl_lru_cache ttl maxsize g t1 a c1 = (Inr v, c1)"
  using assms lru_cache_again [of maxsize "\<lambda>(w, a). f a t0" "(\<lfloor>t0 / of_int ttl\<rfloor>, a)" c0 v c1
      "\<lambda>(w, a). g a t1"]
  by (simp add: ttl_lru_cache_def)

lemma ttl_lru_cache_new_window:
  assumes "0 < ttl" and "\<forall>e\<in>set (entries c). fst (fst e) < \<lfloor>t / of_int ttl\<rfloor>"
  shows "fst (ttl_lru_cache ttl maxsize g t a c) = g a t \<and>
         calls (snd (ttl_lru_cache ttl maxsize g t a c)) = Suc (calls c)"
  using assms(1)
    lru_cache_miss [OF earlier_windows_miss [OF assms(2)], of maxsize "\<lambda>(w, a). g a t" a]
  by (simp add: ttl_lru_cache_def)

lemma ttl_lru_cache_recomputes:
  assumes "0 < ttl" and "\<forall>e\<in>set (entries c0). fst (fst e) \<le> \<lfloor>t0 / of_int ttl\<rfloor>"
    and "ttl_lru_cache ttl maxsize f t0 a c0 = (r, c1)" and "t0 + of_int ttl \<le> t1"
  shows "fst (ttl_lru_cache ttl maxsize g t1 a c1) = g a t1 \<and>
         calls (snd (ttl_lru_cache ttl maxsize g t1 a c1)) = Suc (calls c1)"
proof -
  have "\<forall>e\<in>set (entries c1). fst (fst e) \<le> \<lfloor>t0 / of_int ttl\<rfloor>"
    using assms(1,3) lru_cache_windows [OF assms(2)]
    by (simp add: ttl_lru_cache_def)
  moreover have "\<lfloor>t0 / of_int ttl\<rfloor> < \<lfloor>t1 / of_int ttl\<rfloor>"
    using assms(1,4) by (rule window_advance)
  ultimately have "\<forall>e\<in>set (entries c1). fst (fst e) < \<lfloor>t1 / of_int ttl\<rfloor>"
    by fastforce
  with assms(1) show ?thesis by (rule ttl_lru_cache_new_window)
qed

lemma filter_other_keys:
  "a \<notin> fst ` set rest \<Longrightarrow> filter (\<lambda>e. fst e \<noteq> a) rest = rest"
  by (auto simp: filter_id_conv)

lemma wrapper_alive:
  assumes "entries c = (a, r) # rest" and "a \<notin> fst ` set rest" and "\<not> death r < t"
  shows "lru_cache_with_ttl n ttl g t a c = (Inr (value r), c)"
proof -
  have hit: "map_of (entries c) a = Some r"
    by (simp add: assms(1))
  have front: "(a, r) # filter (\<lambda>e. fst e \<noteq> a) (entries c) = entries c"
    by (simp add: assms(1) filter_other_keys [OF assms(2)])
  show ?thesis
    using assms(3) by (simp add: lru_cache_with_ttl_def lru_cache_def hit front)
qed

lemma wrapper_dead:
  assumes "entries c = (a, r) # rest" and "death r < t"
  shows "fst (lru_cache_with_ttl n ttl g t a c) = g a t \<and>
         calls (snd (lru_cache_with_ttl n ttl g t a c)) = Suc (calls c)"
  using assms
  by (simp add: lru_cache_with_ttl_def lru_cache_def split: sum.splits)

lemma wrapper_raises:
  assumes "map_of (entries d) a = Some r" and "death r < t" and "f a t = Inl e"
  shows "lru_cache_with_ttl n ttl f t a d =
           (Inl e, d\<lparr>entries := (a, r) # filter (\<lambda>x. fst x \<noteq> a) (entries d),
                      calls := Suc (calls d)\<rparr>)"
  using assms
  by (simp add: lru_cache_with_ttl_def lru_cache_def)



lemma map_of_filter_other:
  "k \<noteq> k' \<Longrightarrow> map_of (filter (\<lambda>e. fst e \<noteq> k') es) k = map_of es k"
  by (induction es) auto




lemma lru_cache_entries:
  assumes "x \<in> set (entries (snd (lru_cache n g k c)))"
  shows "x \<in> set (entries c) \<or> fst x = k"
  using assms
  by (auto simp: lru_cache_def split: option.splits sum.splits dest!: in_set_takeD)

lemma own_windows_miss:
  fixes w :: int
  assumes "\<forall>x\<in>set es. snd (fst x) = a \<longrightarrow> fst (fst x) < w"
  shows "map_of es (w, a) = None"
  using assms by (force simp: map_of_eq_None_iff)

lemma own_windows_kept:
  fixes w :: int
  assumes "seconds_to_live \<noteq> 0" and "a' \<noteq> a"
    and "\<forall>x\<in>set (entries c). snd (fst x) = a \<longrightarrow> fst (fst x) < w"
  shows "\<forall>x\<in>set (entries (snd (ttl_lru_cache seconds_to_live maxsize h t' a' c))).
           snd (fst x) = a \<longrightarrow> fst (fst x) < w"
proof (intro ballI impI)
  fix x
  assume x: "x \<in> set (entries (snd (ttl_lru_cache seconds_to_live maxsize h t' a' c)))"
    and a: "snd (fst x) = a"
  from x assms(1) have "x \<in> set (entries c) \<or> fst x = (\<lfloor>t' / of_int seconds_to_live\<rfloor>, a')"
    by (auto simp: ttl_lru_cache_def dest: lru_cache_entries)
  with a assms(2) have "x \<in> set (entries c)" by auto
  with assms(3) a show "fst (fst x) < w" by blast
qed


lemma map_of_refresh_other:
  "k \<noteq> b \<Longrightarrow>
   map_of (map (\<lambda>(k, r). if k = b then (k, new) else (k, r)) es) k = map_of es k"
  by (induction es) auto

lemma map_of_refresh_own:
  "map_of es b = Some r \<Longrightarrow>
   map_of (map (\<lambda>(k, r). if k = b then (k, new) else (k, r)) es) b = Some new"
  by (induction es) (auto split: if_splits)


lemma wrapper_hit_dead:
  assumes "map_of (entries d) b = Some r" and "death r < t"
  shows "fst (lru_cache_with_ttl n ttl g t b d) = g b t \<and>
         calls (snd (lru_cache_with_ttl n ttl g t b d)) = Suc (calls d)"
  using assms by (simp add: lru_cache_with_ttl_def lru_cache_def split: sum.splits)

lemma wrapper_keeps:
  assumes "map_of (entries d) k = Some r" and "length (entries d) < n" and "b' \<noteq> k"
  shows "map_of (entries (snd (lru_cache_with_ttl n ttl g t b' d))) k = Some r"
  using assms
  by (auto simp: lru_cache_with_ttl_def lru_cache_def map_of_filter_other map_of_refresh_other
      split: option.splits sum.splits)






text \<open>
  A value is also computed again inside its window when the cache is full: with room for
  two entries, the calls for the keys 2 and 3 drop the entry of the key 1, and the call
  for the key 1 at time 3, in the window of its first call, invokes the function.
\<close>

lemma eviction_within_window_example:
  "snd (ttl_lru_cache 60 2 (\<lambda>a t. Inr t) 2 (3::int)
          (snd (ttl_lru_cache 60 2 (\<lambda>a t. Inr t) 1 2
                  (snd (ttl_lru_cache 60 2 (\<lambda>a t. Inr t) 0 1 \<lparr>entries = [], calls = 0\<rparr>))))) =
     \<lparr>entries = [((0, 3), 2), ((0, 2), 1)], calls = 3\<rparr> \<and>
   ttl_lru_cache 60 2 (\<lambda>a t. Inr t) 3 (1::int)
     \<lparr>entries = [((0, 3), 2), ((0, 2), 1)], calls = 3\<rparr> =
     (Inr 3, \<lparr>entries = [((0, 1), 3), ((0, 3), 2)], calls = 4\<rparr>)"
  by (simp add: ttl_lru_cache_def lru_cache_def)

text \<open>
  C3. When the value of a key has expired (for \<open>ttl_lru_cache\<close>: every entry of that
  key is of an earlier window, whatever the entries of the other keys; for
  \<open>lru_cache_with_ttl\<close>: the entry of the key is dead) and the function raises, the
  exception is the result of the call; the entries of the cache keep the old value under
  its old window, or with its old time of death, and nothing is stored for the failed
  call; and the next call for the key, at the same or a later time, invokes the function
  again. The same holds when calls for other keys come between the two: they leave the
  entries of the key as expired as they were, and a call for the key on any such cache
  invokes the function.
\<close>

theorem failed_refresh_propagates:
  "(0 < seconds_to_live \<and>
    (\<forall>x\<in>set (entries c).
       snd (fst x) = a \<longrightarrow> fst (fst x) < \<lfloor>now / of_int seconds_to_live\<rfloor>) \<and>
    f a now = Inl e \<and> now \<le> later \<longrightarrow>
      ttl_lru_cache seconds_to_live maxsize f now a c = (Inl e, c\<lparr>calls := Suc (calls c)\<rparr>) \<and>
      fst (ttl_lru_cache seconds_to_live maxsize g later a (c\<lparr>calls := Suc (calls c)\<rparr>)) =
        g a later \<and>
      calls (snd (ttl_lru_cache seconds_to_live maxsize g later a (c\<lparr>calls := Suc (calls c)\<rparr>))) =
        Suc (Suc (calls c))) \<and>
   (0 < seconds_to_live \<and> a' \<noteq> a \<and>
    (\<forall>x\<in>set (entries c).
       snd (fst x) = a \<longrightarrow> fst (fst x) < \<lfloor>now / of_int seconds_to_live\<rfloor>) \<longrightarrow>
      (\<forall>x\<in>set (entries (snd (ttl_lru_cache seconds_to_live maxsize h t' a' c))).
         snd (fst x) = a \<longrightarrow> fst (fst x) < \<lfloor>now / of_int seconds_to_live\<rfloor>)) \<and>
   (0 < seconds_to_live \<and> now \<le> later \<and>
    (\<forall>x\<in>set (entries c).
       snd (fst x) = a \<longrightarrow> fst (fst x) < \<lfloor>now / of_int seconds_to_live\<rfloor>) \<longrightarrow>
      fst (ttl_lru_cache seconds_to_live maxsize g later a c) = g a later \<and>
      calls (snd (ttl_lru_cache seconds_to_live maxsize g later a c)) = Suc (calls c)) \<and>
   (map_of (entries d) b = Some r \<and> death r < now \<and> f' b now = Inl e \<and> now \<le> later \<longrightarrow>
      (let d' = d\<lparr>entries := (b, r) # filter (\<lambda>x. fst x \<noteq> b) (entries d),
                     calls := Suc (calls d)\<rparr>
       in lru_cache_with_ttl maxsize ttl f' now b d = (Inl e, d') \<and>
          map_of (entries d') b = Some r \<and>
          fst (lru_cache_with_ttl maxsize ttl g' later b d') = g' b later \<and>
          calls (snd (lru_cache_with_ttl maxsize ttl g' later b d')) = Suc (Suc (calls d)))) \<and>
   (map_of (entries d) b = Some r \<and> length (entries d) < maxsize \<and> b' \<noteq> b \<longrightarrow>
      map_of (entries (snd (lru_cache_with_ttl maxsize ttl h' t' b' d))) b = Some r) \<and>
   (map_of (entries d) b = Some r \<and> death r < now \<and> now \<le> later \<longrightarrow>
      fst (lru_cache_with_ttl maxsize ttl g' later b d) = g' b later \<and>
      calls (snd (lru_cache_with_ttl maxsize ttl g' later b d)) = Suc (calls d))"
proof -
  let ?P = "\<lambda>c. \<forall>x\<in>set (entries c).
       snd (fst x) = a \<longrightarrow> fst (fst x) < \<lfloor>now / of_int seconds_to_live\<rfloor>"
  have retry: "fst (ttl_lru_cache seconds_to_live maxsize g later a s) = g a later \<and>
      calls (snd (ttl_lru_cache seconds_to_live maxsize g later a s)) = Suc (calls s)"
    if h: "0 < seconds_to_live" "now \<le> later" "?P s" for s
  proof -
    have "\<lfloor>now / of_int seconds_to_live\<rfloor> \<le> \<lfloor>later / of_int seconds_to_live\<rfloor>"
      using h(1,2) by (rule window_mono)
    with h(3) have "\<forall>x\<in>set (entries s).
       snd (fst x) = a \<longrightarrow> fst (fst x) < \<lfloor>later / of_int seconds_to_live\<rfloor>"
      by fastforce
    then have "map_of (entries s) (\<lfloor>later / of_int seconds_to_live\<rfloor>, a) = None"
      by (rule own_windows_miss)
    from lru_cache_miss [OF this, of maxsize "\<lambda>(w, a). g a later"] h(1)
    show ?thesis by (simp add: ttl_lru_cache_def)
  qed
  have 1: "0 < seconds_to_live \<and> ?P c \<and> f a now = Inl e \<and> now \<le> later \<longrightarrow>
      ttl_lru_cache seconds_to_live maxsize f now a c = (Inl e, c\<lparr>calls := Suc (calls c)\<rparr>) \<and>
      fst (ttl_lru_cache seconds_to_live maxsize g later a (c\<lparr>calls := Suc (calls c)\<rparr>)) =
        g a later \<and>
      calls (snd (ttl_lru_cache seconds_to_live maxsize g later a (c\<lparr>calls := Suc (calls c)\<rparr>))) =
        Suc (Suc (calls c))"
  proof (intro impI, elim conjE)
    assume h: "0 < seconds_to_live" "?P c" "f a now = Inl e" "now \<le> later"
    have "lru_cache maxsize (\<lambda>(w, a). f a now) (\<lfloor>now / of_int seconds_to_live\<rfloor>, a) c =
            (Inl e, c\<lparr>calls := Suc (calls c)\<rparr>)"
      by (rule lru_cache_raises [OF own_windows_miss [OF h(2)]]) (simp add: h(3))
    then have raised:
      "ttl_lru_cache seconds_to_live maxsize f now a c = (Inl e, c\<lparr>calls := Suc (calls c)\<rparr>)"
      using h(1) by (simp add: ttl_lru_cache_def)
    have "?P (c\<lparr>calls := Suc (calls c)\<rparr>)"
      using h(2) by simp
    from retry [OF h(1) h(4) this] raised
    show "ttl_lru_cache seconds_to_live maxsize f now a c = (Inl e, c\<lparr>calls := Suc (calls c)\<rparr>) \<and>
      fst (ttl_lru_cache seconds_to_live maxsize g later a (c\<lparr>calls := Suc (calls c)\<rparr>)) =
        g a later \<and>
      calls (snd (ttl_lru_cache seconds_to_live maxsize g later a (c\<lparr>calls := Suc (calls c)\<rparr>))) =
        Suc (Suc (calls c))"
      by simp
  qed
  have 2: "0 < seconds_to_live \<and> a' \<noteq> a \<and> ?P c \<longrightarrow>
      ?P (snd (ttl_lru_cache seconds_to_live maxsize h t' a' c))"
    using own_windows_kept [of seconds_to_live a' a c "\<lfloor>now / of_int seconds_to_live\<rfloor>" maxsize h t']
    by simp
  have 3: "0 < seconds_to_live \<and> now \<le> later \<and> ?P c \<longrightarrow>
      fst (ttl_lru_cache seconds_to_live maxsize g later a c) = g a later \<and>
      calls (snd (ttl_lru_cache seconds_to_live maxsize g later a c)) = Suc (calls c)"
    using retry [of c] by blast
  have 4: "map_of (entries d) b = Some r \<and> death r < now \<and> f' b now = Inl e \<and> now \<le> later \<longrightarrow>
      (let d' = d\<lparr>entries := (b, r) # filter (\<lambda>x. fst x \<noteq> b) (entries d),
                     calls := Suc (calls d)\<rparr>
       in lru_cache_with_ttl maxsize ttl f' now b d = (Inl e, d') \<and>
          map_of (entries d') b = Some r \<and>
          fst (lru_cache_with_ttl maxsize ttl g' later b d') = g' b later \<and>
          calls (snd (lru_cache_with_ttl maxsize ttl g' later b d')) = Suc (Suc (calls d)))"
  proof (intro impI, elim conjE)
    assume h: "map_of (entries d) b = Some r" "death r < now" "f' b now = Inl e" "now \<le> later"
    let ?d' = "d\<lparr>entries := (b, r) # filter (\<lambda>x. fst x \<noteq> b) (entries d),
                  calls := Suc (calls d)\<rparr>"
    have raised: "lru_cache_with_ttl maxsize ttl f' now b d = (Inl e, ?d')"
      using h(1,2,3) by (rule wrapper_raises)
    have kept: "map_of (entries ?d') b = Some r" by simp
    have dead: "death r < later" using h(2,4) by simp
    from wrapper_hit_dead [OF kept dead, of maxsize ttl g'] raised kept
    show "let d' = ?d'
       in lru_cache_with_ttl maxsize ttl f' now b d = (Inl e, d') \<and>
          map_of (entries d') b = Some r \<and>
          fst (lru_cache_with_ttl maxsize ttl g' later b d') = g' b later \<and>
          calls (snd (lru_cache_with_ttl maxsize ttl g' later b d')) = Suc (Suc (calls d))"
      unfolding Let_def by simp
  qed
  have 5: "map_of (entries d) b = Some r \<and> length (entries d) < maxsize \<and> b' \<noteq> b \<longrightarrow>
      map_of (entries (snd (lru_cache_with_ttl maxsize ttl h' t' b' d))) b = Some r"
    using wrapper_keeps [of d b r maxsize b' ttl h' t'] by blast
  have 6: "map_of (entries d) b = Some r \<and> death r < now \<and> now \<le> later \<longrightarrow>
      fst (lru_cache_with_ttl maxsize ttl g' later b d) = g' b later \<and>
      calls (snd (lru_cache_with_ttl maxsize ttl g' later b d)) = Suc (calls d)"
    using wrapper_hit_dead [of d b r later maxsize ttl g'] by auto
  from 1 2 3 4 5 6 show ?thesis by (intro conjI)
qed

text \<open>
  The theorem with 60 seconds to live and a value computed at time 30, in a cache that
  also holds a value of another key computed at time 70: at time 91 the controller fails
  at the refresh, and it answers at the next call.
\<close>

theorem failed_refresh_propagates_witness:
  "ttl_lru_cache 60 128 (\<lambda>a t. Inl UpstreamFailure) 91 (7::int)
       \<lparr>entries = [((1, 8), 70 :: real), ((0, 7), 30)], calls = 2\<rparr> =
     (Inl UpstreamFailure, \<lparr>entries = [((1, 8), 70), ((0, 7), 30)], calls = 3\<rparr>) \<and>
   fst (ttl_lru_cache 60 128 (\<lambda>a t. Inr t) 92 (7::int)
          \<lparr>entries = [((1, 8), 70), ((0, 7), 30)], calls = 3\<rparr>) = Inr 92 \<and>
   calls (snd (ttl_lru_cache 60 128 (\<lambda>a t. Inr t) 92 (7::int)
          \<lparr>entries = [((1, 8), 70), ((0, 7), 30)], calls = 3\<rparr>)) = 4 \<and>
   lru_cache_with_ttl 128 60 (\<lambda>a t. Inl UpstreamFailure) 91 (7::int)
       \<lparr>entries = [(7, \<lparr>value = 30 :: real, death = 90\<rparr>)], calls = 1\<rparr> =
     (Inl UpstreamFailure, \<lparr>entries = [(7, \<lparr>value = 30, death = 90\<rparr>)], calls = 2\<rparr>) \<and>
   fst (lru_cache_with_ttl 128 60 (\<lambda>a t. Inr t) 92 (7::int)
          \<lparr>entries = [(7, \<lparr>value = 30, death = 90\<rparr>)], calls = 2\<rparr>) = Inr 92"
  using
    failed_refresh_propagates
      [where seconds_to_live = "60"
         and c = "\<lparr>entries = [((1::int, 8::int), 70::real), ((0, 7), 30)], calls = 2\<rparr>"
         and a = "7"
         and now = "91"
         and f = "(\<lambda>(a::int) (t::real). Inl UpstreamFailure :: error + real)"
         and e = "UpstreamFailure"
         and maxsize = "128"
         and a' = "8"
         and h = "(\<lambda>(a::int) (t::real). Inr t :: error + real)"
         and t' = "61"
         and later = "92"
         and g = "(\<lambda>(a::int) (t::real). Inr t :: error + real)"
         and d = "\<lparr>entries = [(7::int, \<lparr>value = 30::real, death = 90\<rparr>)], calls = 1\<rparr>"
         and b = "7"
         and r = "\<lparr>value = 30::real, death = 90\<rparr>"
         and f' = "(\<lambda>(a::int) (t::real). Inl UpstreamFailure :: error + real)"
         and ttl = "60"
         and b' = "8"
         and h' = "(\<lambda>(a::int) (t::real). Inr t :: error + real)"
         and g' = "(\<lambda>(a::int) (t::real). Inr t :: error + real)"]
    failed_refresh_propagates
      [where seconds_to_live = "60"
         and c = "\<lparr>entries = [((1::int, 8::int), 70::real), ((0, 7), 30)], calls = 3\<rparr>"
         and a = "7"
         and now = "91"
         and f = "(\<lambda>(a::int) (t::real). Inl UpstreamFailure :: error + real)"
         and e = "UpstreamFailure"
         and maxsize = "128"
         and a' = "8"
         and h = "(\<lambda>(a::int) (t::real). Inr t :: error + real)"
         and t' = "61"
         and later = "92"
         and g = "(\<lambda>(a::int) (t::real). Inr t :: error + real)"
         and d = "\<lparr>entries = [(7::int, \<lparr>value = 30::real, death = 90\<rparr>)], calls = 2\<rparr>"
         and b = "7"
         and r = "\<lparr>value = 30::real, death = 90\<rparr>"
         and f' = "(\<lambda>(a::int) (t::real). Inl UpstreamFailure :: error + real)"
         and ttl = "60"
         and b' = "8"
         and h' = "(\<lambda>(a::int) (t::real). Inr t :: error + real)"
         and g' = "(\<lambda>(a::int) (t::real). Inr t :: error + real)"]
  by (simp add: ttl_lru_cache_def lru_cache_def lru_cache_with_ttl_def)

end
